theory Spec2Isabelle
  imports Complex_Main "HOL-Library.Word" "HOL-Library.Multiset"
begin

unbundle bit_operations_syntax

section \<open>evioBench: the event loop of \<open>main\<close> in \<open>evioBench.cc\<close>\<close>

text \<open>
  The program reads EVIO files record by record through the EVIO C library
  (\<open>evOpen\<close>, \<open>evIoctl\<close>, \<open>evRead\<close>, \<open>evClose\<close>), keeps counters in
  \<open>unsigned int\<close> and \<open>uint64_t\<close> variables and prints a report. The library is
  not part of the program: each file is described by what the library
  answers for it. All arithmetic on counters is the machine's: \<open>u32\<close> and
  \<open>u64\<close> wrap around.
\<close>

type_synonym u32 = "32 word"

type_synonym u64 = "64 word"

subsection \<open>Constants\<close>

definition MAXEVLEN :: u32 where
  "MAXEVLEN = 102400"

definition MAX_PHYS_EVTYPE :: u32 where
  "MAX_PHYS_EVTYPE = 14"

definition SYNC_EVTYPE :: u32 where
  "SYNC_EVTYPE = 16"

definition PRESTART_EVTYPE :: u32 where
  "PRESTART_EVTYPE = 17"

definition GO_EVTYPE :: u32 where
  "GO_EVTYPE = 18"

definition PAUSE_EVTYPE :: u32 where
  "PAUSE_EVTYPE = 19"

definition END_EVTYPE :: u32 where
  "END_EVTYPE = 20"

text \<open>
  Status codes of the library and of the C standard library, as \<open>evio.h\<close> and
  \<open>cstdio\<close> define them. The program only compares a status with them.
\<close>

definition S_SUCCESS :: int where
  "S_SUCCESS = 0"

definition EOF :: int where
  "EOF = - 1"

subsection \<open>Errors, output and state\<close>

text \<open>
  Every \<open>throw runtime_error(...)\<close> of \<open>main\<close> is one constructor, in the order
  of the source: a failed \<open>evOpen\<close>, a null handle, a failed \<open>evIoctl\<close>, a version
  other than 2 and 3, a record longer than the buffer, an unknown CODA 3 bank
  tag (with the tag printed on \<open>cerr\<close>), and a failed \<open>evRead\<close>.
\<close>

datatype error =
    OpenFailure int
  | BadFileHandle
  | VersionQueryFailure int
  | UnsupportedVersion
  | BufferOverflow
  | UnrecognizedTag u32
  | ReadFailure int

datatype msg =
    Opened string
  | EvioVersion int
  | Milestone u32
  | EndOfFile

text \<open>
  The variables of \<open>main\<close> that live across records and files. \<open>gEvNum\<close> and
  \<open>handle\<close> are declared outside the \<open>try\<close> block and are read by the handler.
  \<open>evbuffer\<close> is the array of \<open>MAXEVLEN\<close> words, indexed from 0. \<open>lib_open\<close> is
  the library's side of the state: the handles it has open.
\<close>

record state =
  gEvNum :: u32
  handle :: int
  nev :: u32
  nphys :: u32
  max_evlen :: u32
  min_evlen :: u32
  max_evlen_any :: u32
  totlen :: u64
  evbuffer :: "nat \<Rightarrow> u32"
  cout :: "msg list"
  lib_open :: "int list"

text \<open>
  The state at the start of the \<open>try\<close> block: counters at 0, \<open>min_evlen\<close> at
  \<open>numeric_limits<unsigned int>::max()\<close>, and the buffer zeroed, as
  \<open>make_unique<unsigned int[]>\<close> value-initialises it.
\<close>

definition init_state :: state where
  "init_state =
     \<lparr> gEvNum = 0, handle = 0, nev = 0, nphys = 0, max_evlen = 0,
       min_evlen = - 1, max_evlen_any = 0, totlen = 0,
       evbuffer = (\<lambda>_. 0), cout = [], lib_open = [] \<rparr>"

subsection \<open>The library, per file\<close>

text \<open>
  What the library answers for one file: the status of \<open>evOpen\<close> and the handle
  it stores on success, the status of \<open>evIoctl\<close> and the version it stores, and
  the successive calls of \<open>evRead\<close>, each with its status and the words it
  writes to the start of the buffer. After the last listed call the file is
  at its end and \<open>evRead\<close> answers \<open>EOF\<close>.
\<close>

record evfile =
  fname :: string
  evOpen_ret :: int
  evOpen_handle :: int
  evIoctl_ret :: int
  evIoctl_version :: int
  evRead_calls :: "(int \<times> u32 list) list"

text \<open>
  \<open>evRead(handle, evbuffer, MAXEVLEN)\<close> overwrites the first words of the buffer,
  never more than \<open>MAXEVLEN\<close> of them, and leaves the others as they were.
\<close>

definition evRead :: "u32 list \<Rightarrow> state \<Rightarrow> state" where
  "evRead ws st =
     st\<lparr>evbuffer := (\<lambda>i. if i < length ws \<and> i < unat MAXEVLEN then ws ! i
                            else evbuffer st i)\<rparr>"

definition evClose :: "state \<Rightarrow> state" where
  "evClose st = st\<lparr>lib_open := remove1 (handle st) (lib_open st)\<rparr>"

subsection \<open>One record\<close>

text \<open>
  The \<open>switch\<close> on the bank tag of a version 3 record (lines 114 to 133);
  \<open>None\<close> is the \<open>default\<close> branch, which throws.
\<close>

definition coda3_evtype :: "u32 \<Rightarrow> u32 option" where
  "coda3_evtype bank_tag =
     (if bank_tag = 0xffd1 then Some PRESTART_EVTYPE
      else if bank_tag = 0xffd2 then Some GO_EVTYPE
      else if bank_tag = 0xffd4 then Some END_EVTYPE
      else if bank_tag = 0xff50 \<or> bank_tag = 0xff58 \<or> bank_tag = 0xff70 then Some 1
      else None)"

text \<open>Lines 108 to 134: the event type of the record in the buffer.\<close>

definition decode_evtype :: "int \<Rightarrow> (nat \<Rightarrow> u32) \<Rightarrow> error + u32" where
  "decode_evtype version buf =
     (if version = 2 then Inr (drop_bit 16 (buf 1))
      else (let bank_tag = drop_bit 16 (buf 1) in
            case coda3_evtype bank_tag of
              Some evtype \<Rightarrow> Inr evtype
            | None \<Rightarrow> Inl (UnrecognizedTag bank_tag)))"

text \<open>Lines 135 to 148: the update for a physics record.\<close>

definition physics_update :: "int \<Rightarrow> u32 \<Rightarrow> state \<Rightarrow> state" where
  "physics_update version evlen st =
     (let st1 = st\<lparr>nphys := nphys st + 1,
                    max_evlen := max (max_evlen st) evlen,
                    min_evlen := min (min_evlen st) evlen\<rparr>;
          st2 = (if version = 2 then st1\<lparr>gEvNum := evbuffer st1 4\<rparr>
                 else st1\<lparr>gEvNum := gEvNum st1 + 1\<rparr>);
          evnum = gEvNum st2
      in if evnum mod 25000 = 0 then st2\<lparr>cout := cout st2 @ [Milestone evnum]\<rparr>
         else st2)"

text \<open>
  Lines 100 to 148: the body of the loop after a successful \<open>evRead\<close>. An
  exception leaves with the state reached so far.
\<close>

definition process_event :: "int \<Rightarrow> state \<Rightarrow> (error \<times> state) + state" where
  "process_event version st =
     (let st1 = st\<lparr>nev := nev st + 1\<rparr>;
          evlen = evbuffer st1 0 + 1
      in if evlen > MAXEVLEN then Inl (BufferOverflow, st1)
         else
           (let st2 = st1\<lparr>max_evlen_any := max (max_evlen_any st1) evlen,
                          totlen := totlen st1 + ucast evlen\<rparr>
            in case decode_evtype version (evbuffer st2) of
                 Inl e \<Rightarrow> Inl (e, st2)
               | Inr evtype \<Rightarrow>
                   if evtype \<le> MAX_PHYS_EVTYPE
                   then Inr (physics_update version evlen st2)
                   else Inr st2))"

subsection \<open>One file, all files\<close>

text \<open>
  The \<open>while (true)\<close> loop (lines 96 to 149). It leaves with the status that
  broke it, or with an exception of the body.
\<close>

fun read_loop :: "int \<Rightarrow> (int \<times> u32 list) list \<Rightarrow> state \<Rightarrow> (error \<times> state) + (int \<times> state)" where
  "read_loop version [] st = Inr (EOF, st)"
| "read_loop version ((ret, ws) # calls) st =
     (if ret \<noteq> S_SUCCESS then Inr (ret, evRead ws st)
      else case process_event version (evRead ws st) of
             Inl x \<Rightarrow> Inl x
           | Inr st' \<Rightarrow> read_loop version calls st')"

text \<open>
  Lines 79 to 93: opening a file and asking for its version. On success the
  library stores the handle and has the file open; the result is the version
  and the state.
\<close>

definition open_file :: "evfile \<Rightarrow> state \<Rightarrow> (error \<times> state) + (int \<times> state)" where
  "open_file f st =
     (if evOpen_ret f \<noteq> S_SUCCESS then Inl (OpenFailure (evOpen_ret f), st)
      else
        (let st1 = st\<lparr>handle := evOpen_handle f,
                       lib_open := evOpen_handle f # lib_open st\<rparr>
         in if handle st1 = 0 then Inl (BadFileHandle, st1)
            else
              (let st2 = st1\<lparr>cout := cout st1 @ [Opened (fname f)]\<rparr>
               in if evIoctl_ret f \<noteq> S_SUCCESS
                  then Inl (VersionQueryFailure (evIoctl_ret f), st2)
                  else
                    (let version = evIoctl_version f;
                         st3 = st2\<lparr>cout := cout st2 @ [EvioVersion version]\<rparr>
                     in if version \<noteq> 2 \<and> version \<noteq> 3
                        then Inl (UnsupportedVersion, st3)
                        else Inr (version, st3)))))"

text \<open>The body of the loop over the file names (lines 78 to 153).\<close>

definition process_file :: "evfile \<Rightarrow> state \<Rightarrow> (error \<times> state) + state" where
  "process_file f st =
     (case open_file f st of
        Inl x \<Rightarrow> Inl x
      | Inr (version, st3) \<Rightarrow>
          (case read_loop version (evRead_calls f) st3 of
             Inl x \<Rightarrow> Inl x
           | Inr (ret, st4) \<Rightarrow>
               if ret \<noteq> EOF then Inl (ReadFailure ret, st4)
               else Inr (evClose (st4\<lparr>cout := cout st4 @ [EndOfFile]\<rparr>))))"

fun process_files :: "evfile list \<Rightarrow> state \<Rightarrow> (error \<times> state) + state" where
  "process_files [] st = Inr st"
| "process_files (f # fs) st =
     (case process_file f st of
        Inl x \<Rightarrow> Inl x
      | Inr st' \<Rightarrow> process_files fs st')"

subsection \<open>The records a run sees\<close>

text \<open>
  The records a run processes, each as the version of its file and the state
  right after the \<open>evRead\<close> that delivered it. These functions follow the
  loops above and only collect; they are used to state properties of runs.
\<close>

fun loop_records :: "int \<Rightarrow> (int \<times> u32 list) list \<Rightarrow> state \<Rightarrow> (int \<times> state) list" where
  "loop_records version [] st = []"
| "loop_records version ((ret, ws) # calls) st =
     (if ret \<noteq> S_SUCCESS then []
      else (version, evRead ws st) #
           (case process_event version (evRead ws st) of
              Inl x \<Rightarrow> []
            | Inr st' \<Rightarrow> loop_records version calls st'))"

definition file_records :: "evfile \<Rightarrow> state \<Rightarrow> (int \<times> state) list" where
  "file_records f st =
     (case open_file f st of
        Inl x \<Rightarrow> []
      | Inr (version, st3) \<Rightarrow> loop_records version (evRead_calls f) st3)"

fun run_records :: "evfile list \<Rightarrow> state \<Rightarrow> (int \<times> state) list" where
  "run_records [] st = []"
| "run_records (f # fs) st =
     file_records f st @
     (case process_file f st of
        Inl x \<Rightarrow> []
      | Inr st' \<Rightarrow> run_records fs st')"

text \<open>
  The record in the buffer is a physics record: it passes the length check
  and its event type is at most \<open>MAX_PHYS_EVTYPE\<close> (line 135).
\<close>

definition physics_record :: "int \<Rightarrow> state \<Rightarrow> bool" where
  "physics_record version st =
     (\<not> evbuffer st 0 + 1 > MAXEVLEN \<and>
      (case decode_evtype version (evbuffer st) of
         Inl e \<Rightarrow> False
       | Inr evtype \<Rightarrow> evtype \<le> MAX_PHYS_EVTYPE))"

text \<open>
  The sequence number a record leaves behind, by the rule of lines 140 to
  145, and the number a list of records leaves behind.
\<close>

definition seq_after :: "u32 \<Rightarrow> int \<times> state \<Rightarrow> u32" where
  "seq_after g r =
     (if physics_record (fst r) (snd r)
      then (if fst r = 2 then evbuffer (snd r) 4 else g + 1)
      else g)"

definition last_seq :: "u32 \<Rightarrow> (int \<times> state) list \<Rightarrow> u32" where
  "last_seq g rs = foldl seq_after g rs"

subsection \<open>The report and the exit\<close>

text \<open>
  A \<open>double\<close> of the report. Rounding is not modelled: \<open>Fin x\<close> stands for the
  double next to \<open>x\<close>. A division by \<open>0.0\<close> is exact in IEEE 754: \<open>0.0 / 0.0\<close>
  is NaN and a number other than zero over \<open>0.0\<close> is an infinity of its sign.
  The divisors of the report are never negative.
\<close>

datatype fp = NaN | PosInf | NegInf | Fin real

definition fdiv :: "real \<Rightarrow> real \<Rightarrow> fp" where
  "fdiv a b =
     (if b = 0 then (if a = 0 then NaN else if 0 < a then PosInf else NegInf)
      else Fin (a / b))"

record report =
  files_analyzed :: nat
  events :: u32
  physics_events :: u32
  bytes_read :: u64
  mib_read :: fp
  min_physics_bytes :: u32
  max_physics_bytes :: u32
  max_event_bytes :: u32
  average_event_length :: fp
  seconds_wall_time :: real
  us_per_event :: fp
  mib_per_second :: fp

text \<open>
  Lines 161 to 176. \<open>4*totlen\<close> is a \<open>uint64_t\<close> product, \<open>4*min_evlen\<close> and its
  neighbours are \<open>unsigned int\<close> products.
\<close>

definition print_statistics :: "nat \<Rightarrow> real \<Rightarrow> state \<Rightarrow> report" where
  "print_statistics nfiles wall_time st =
     \<lparr> files_analyzed = nfiles,
       events = nev st,
       physics_events = nphys st,
       bytes_read = 4 * totlen st,
       mib_read = Fin (4 * real (unat (totlen st)) / 1024 / 1024),
       min_physics_bytes = 4 * min_evlen st,
       max_physics_bytes = 4 * max_evlen st,
       max_event_bytes = 4 * max_evlen_any st,
       average_event_length = fdiv (4 * real (unat (totlen st))) (real (unat (nev st))),
       seconds_wall_time = wall_time,
       us_per_event = fdiv (1000000 * wall_time) (real (unat (nev st))),
       mib_per_second = fdiv (4 * real (unat (totlen st)) / 1024 / 1024) wall_time \<rparr>"

text \<open>
  What a run leaves behind: the exit status, the report if one was printed,
  the line of the handler on \<open>cerr\<close> if one was printed (the value of \<open>gEvNum\<close>
  and the cause), and the last state.
\<close>

record outcome =
  retcode :: int
  printed :: "report option"
  cerr :: "(u32 \<times> error) option"
  final :: state

text \<open>
  \<open>main\<close>, for the files named on the command line and the wall time the
  clock measures. Without a file name \<open>usage\<close> exits with status 1.
\<close>

definition main :: "evfile list \<Rightarrow> real \<Rightarrow> outcome" where
  "main fnames wall_time =
     (if fnames = [] then
        \<lparr> retcode = 1, printed = None, cerr = None, final = init_state \<rparr>
      else case process_files fnames init_state of
             Inr st \<Rightarrow>
               \<lparr> retcode = 0,
                 printed = Some (print_statistics (length fnames) wall_time st),
                 cerr = None, final = st \<rparr>
           | Inl (e, st) \<Rightarrow>
               \<lparr> retcode = 2, printed = None, cerr = Some (gEvNum st, e),
                 final = evClose st \<rparr>)"

text \<open>
  A run that the handler ended (lines 178 to 182): exit status 2, no report,
  the line on \<open>cerr\<close> with the sequence number \<open>g\<close> and the cause \<open>e\<close>, and no
  file left open in the library.
\<close>

definition aborted :: "outcome \<Rightarrow> u32 \<Rightarrow> error \<Rightarrow> bool" where
  "aborted out g e =
     (retcode out = 2 \<and> printed out = None \<and> cerr out = Some (g, e) \<and>
      lib_open (final out) = [])"

subsection \<open>Totals of a run and sample files\<close>

text \<open>
  The totals of a run that ends without an exception: record count, physics
  count, cumulative length in words, and bytes read (\<open>4*totlen\<close>).
\<close>

definition run_totals :: "evfile list \<Rightarrow> (u32 \<times> u32 \<times> u64 \<times> u64) option" where
  "run_totals fs =
     (case process_files fs init_state of
        Inl x \<Rightarrow> None
      | Inr st \<Rightarrow> Some (nev st, nphys st, totlen st, 4 * totlen st))"

text \<open>
  Two stretches of a run, from \<open>s\<close> to \<open>s'\<close> and from \<open>t\<close> to \<open>t'\<close>, add the same
  to the record count, the physics count and the cumulative length.
\<close>

definition same_growth :: "state \<Rightarrow> state \<Rightarrow> state \<Rightarrow> state \<Rightarrow> bool" where
  "same_growth s s' t t' =
     (nev t' - nev t = nev s' - nev s \<and>
      nphys t' - nphys t = nphys s' - nphys s \<and>
      totlen t' - totlen t = totlen s' - totlen s)"

text \<open>
  Every record that \<open>evRead\<close> delivers from the file has at least its two
  header words: the length word and the word with the tag.
\<close>

definition carries_header :: "evfile \<Rightarrow> bool" where
  "carries_header f =
     list_all (\<lambda>c. fst c \<noteq> S_SUCCESS \<or> 2 \<le> length (snd c)) (evRead_calls f)"

text \<open>
  A file that opens with handle 3 and answers the given version and reads;
  used for concrete runs.
\<close>

definition sample_file :: "int \<Rightarrow> (int \<times> u32 list) list \<Rightarrow> evfile" where
  "sample_file version calls =
     \<lparr> fname = ''run.dat'', evOpen_ret = S_SUCCESS, evOpen_handle = 3,
       evIoctl_ret = S_SUCCESS, evIoctl_version = version, evRead_calls = calls \<rparr>"

section \<open>Properties\<close>

subsection \<open>Preliminaries\<close>

text \<open>The values of the constants.\<close>

lemmas consts_defs = MAXEVLEN_def MAX_PHYS_EVTYPE_def PRESTART_EVTYPE_def GO_EVTYPE_def
  END_EVTYPE_def S_SUCCESS_def EOF_def

text \<open>The definitions a concrete run unfolds.\<close>

lemmas run_eval = main_def process_file_def open_file_def file_records_def evClose_def evRead_def
  init_state_def process_event_def decode_evtype_def coda3_evtype_def physics_update_def
  physics_record_def seq_after_def last_seq_def sample_file_def print_statistics_def fdiv_def
  run_totals_def carries_header_def Let_def consts_defs

text \<open>
  The tag is the upper half of a word; adding 1 to a word other than
  \<open>0xffffffff\<close> does not wrap.
\<close>

lemma tag_upper_half: "unat (drop_bit 16 (w :: u32)) = unat w div 2 ^ 16"
  by (simp add: drop_bit_eq_div unat_div)

lemma unat_succ:
  assumes "(w::u32) \<noteq> - 1"
  shows "unat (w + 1) = unat w + 1"
proof -
  have "1 + w \<noteq> 0"
    using assms by (simp add: add_eq_0_iff)
  then show ?thesis
    using unatSuc [of w] by (simp add: add.commute)
qed

subsection \<open>The length check (lines 102 to 104)\<close>

text \<open>
  The check compares \<open>evlen\<close>, the 32-bit sum \<open>evbuffer[0]+1\<close>, with \<open>MAXEVLEN\<close>.
  It throws exactly when \<open>evlen\<close> is larger, with only \<open>nev\<close> changed, whatever
  the other words of the record are. As long as word 0 is not \<open>0xffffffff\<close>
  the sum does not wrap and \<open>evlen\<close> is the length the record declares.
\<close>

lemma overflow_guard_rejects:
  "evbuffer st 0 + 1 > MAXEVLEN \<Longrightarrow>
   process_event version st = Inl (BufferOverflow, st\<lparr>nev := nev st + 1\<rparr>)"
  by (simp add: process_event_def Let_def)

lemma overflow_guard_accepts:
  "evbuffer st 0 + 1 \<le> MAXEVLEN \<Longrightarrow> process_event version st \<noteq> Inl (BufferOverflow, st')"
  by (auto simp add: process_event_def Let_def decode_evtype_def
        split: sum.splits option.splits if_splits)

lemma overflow_guard_unwrapped:
  assumes "evbuffer st 0 \<noteq> - 1" and "unat (evbuffer st 0) + 1 > unat MAXEVLEN"
  shows "process_event version st = Inl (BufferOverflow, st\<lparr>nev := nev st + 1\<rparr>)"
proof -
  have "unat MAXEVLEN < unat (evbuffer st 0 + 1)"
    using assms by (simp add: unat_succ)
  then have "MAXEVLEN < evbuffer st 0 + 1"
    by (simp add: word_less_nat_alt)
  then show ?thesis
    by (rule overflow_guard_rejects)
qed

text \<open>
  Claim C1 holds for every word 0 but one. A record with word 0 equal to
  \<open>0xffffffff\<close> declares \<open>2^32\<close> words, more than the buffer holds; the sum
  \<open>evbuffer[0]+1\<close> wraps to 0, the check passes, the record is counted with
  length 0 and the run ends with exit status 0.
\<close>

theorem C1_wrapped_length_accepted:
  "unat MAXEVLEN < unat (0xffffffff :: u32) + 1 \<and>
   evbuffer (evRead [0xffffffff, 0x00100000] init_state) 0 + 1 = 0 \<and>
   \<not> isl (process_event 2 (evRead [0xffffffff, 0x00100000] init_state)) \<and>
   nev (projr (process_event 2 (evRead [0xffffffff, 0x00100000] init_state))) = 1 \<and>
   totlen (projr (process_event 2 (evRead [0xffffffff, 0x00100000] init_state))) = 0 \<and>
   retcode (main [sample_file 2 [(0, [0xffffffff, 0x00100000])]] 1) = 0 \<and>
   cerr (main [sample_file 2 [(0, [0xffffffff, 0x00100000])]] 1) = None \<and>
   events (the (printed (main [sample_file 2 [(0, [0xffffffff, 0x00100000])]] 1))) = 1"
  by (simp add: run_eval)

subsection \<open>One record\<close>

lemma process_event_v2:
  "evbuffer st 0 + 1 \<le> MAXEVLEN \<Longrightarrow>
   process_event 2 st =
     (let evlen = evbuffer st 0 + 1;
          st2 = st\<lparr>nev := nev st + 1, max_evlen_any := max (max_evlen_any st) evlen,
                   totlen := totlen st + ucast evlen\<rparr>
      in if drop_bit 16 (evbuffer st 1) \<le> 14 then Inr (physics_update 2 evlen st2) else Inr st2)"
  by (simp add: process_event_def decode_evtype_def Let_def MAX_PHYS_EVTYPE_def
        not_less [symmetric])

lemma physics_update_fields:
  "nphys (physics_update v l st) = nphys st + 1"
  "max_evlen (physics_update v l st) = max (max_evlen st) l"
  "min_evlen (physics_update v l st) = min (min_evlen st) l"
  "gEvNum (physics_update v l st) = (if v = 2 then evbuffer st 4 else gEvNum st + 1)"
  "nev (physics_update v l st) = nev st"
  "totlen (physics_update v l st) = totlen st"
  "max_evlen_any (physics_update v l st) = max_evlen_any st"
  "evbuffer (physics_update v l st) = evbuffer st"
  "handle (physics_update v l st) = handle st"
  "lib_open (physics_update v l st) = lib_open st"
  by (simp_all add: physics_update_def Let_def)

text \<open>
  Claim C3. Under version 3 the tag, the upper 16 bits of word 1, is
  classified by a fixed table: \<open>0xffd1\<close> is Prestart (17), \<open>0xffd2\<close> is Go (18),
  \<open>0xffd4\<close> is End (20), and \<open>0xff50\<close>, \<open>0xff58\<close> and \<open>0xff70\<close> are physics, with
  event type 1. Every other tag is a fatal error that carries the tag, and no
  event type is assigned.
\<close>

theorem C3_v3_tag_table:
  "(drop_bit 16 (evbuffer st 1) = 0xffd1 \<longrightarrow> decode_evtype 3 (evbuffer st) = Inr PRESTART_EVTYPE) \<and>
   (drop_bit 16 (evbuffer st 1) = 0xffd2 \<longrightarrow> decode_evtype 3 (evbuffer st) = Inr GO_EVTYPE) \<and>
   (drop_bit 16 (evbuffer st 1) = 0xffd4 \<longrightarrow> decode_evtype 3 (evbuffer st) = Inr END_EVTYPE) \<and>
   (drop_bit 16 (evbuffer st 1) \<in> {0xff50, 0xff58, 0xff70} \<longrightarrow>
      decode_evtype 3 (evbuffer st) = Inr 1 \<and>
      (evbuffer st 0 + 1 \<le> MAXEVLEN \<longrightarrow> physics_record 3 st)) \<and>
   (drop_bit 16 (evbuffer st 1) \<notin> {0xffd1, 0xffd2, 0xffd4, 0xff50, 0xff58, 0xff70} \<longrightarrow>
      decode_evtype 3 (evbuffer st) = Inl (UnrecognizedTag (drop_bit 16 (evbuffer st 1))) \<and>
      (evbuffer st 0 + 1 \<le> MAXEVLEN \<longrightarrow>
         isl (process_event 3 st) \<and>
         fst (projl (process_event 3 st)) = UnrecognizedTag (drop_bit 16 (evbuffer st 1))))"
  by (simp add: decode_evtype_def coda3_evtype_def physics_record_def process_event_def Let_def
        not_less [symmetric] MAX_PHYS_EVTYPE_def)

theorem C3_v3_tag_table_witness:
  "drop_bit 16 (evbuffer (evRead [1, 0xff580000] init_state) 1) \<in> {0xff50, 0xff58, 0xff70 :: u32} \<and>
   evbuffer (evRead [1, 0xff580000] init_state) 0 + 1 \<le> MAXEVLEN \<and>
   decode_evtype 3 (evbuffer (evRead [1, 0xff580000] init_state)) = Inr 1 \<and>
   physics_record 3 (evRead [1, 0xff580000] init_state) \<and>
   drop_bit 16 (evbuffer (evRead [1, 0xffd10000] init_state) 1) = 0xffd1 \<and>
   decode_evtype 3 (evbuffer (evRead [1, 0xffd10000] init_state)) = Inr 17 \<and>
   drop_bit 16 (evbuffer (evRead [1, 0xffd20000] init_state) 1) = 0xffd2 \<and>
   decode_evtype 3 (evbuffer (evRead [1, 0xffd20000] init_state)) = Inr 18 \<and>
   drop_bit 16 (evbuffer (evRead [1, 0xffd40000] init_state) 1) = 0xffd4 \<and>
   decode_evtype 3 (evbuffer (evRead [1, 0xffd40000] init_state)) = Inr 20 \<and>
   drop_bit 16 (evbuffer (evRead [1, 0xffd30000] init_state) 1)
     \<notin> {0xffd1, 0xffd2, 0xffd4, 0xff50, 0xff58, 0xff70 :: u32} \<and>
   evbuffer (evRead [1, 0xffd30000] init_state) 0 + 1 \<le> MAXEVLEN \<and>
   isl (process_event 3 (evRead [1, 0xffd30000] init_state)) \<and>
   fst (projl (process_event 3 (evRead [1, 0xffd30000] init_state))) = UnrecognizedTag 0xffd3"
proof -
  have p: "drop_bit 16 (evbuffer (evRead [1, 0xff580000] init_state) 1) \<in> {0xff50, 0xff58, 0xff70 :: u32}"
    and q: "evbuffer (evRead [1, 0xff580000] init_state) 0 + 1 \<le> MAXEVLEN"
    and a: "drop_bit 16 (evbuffer (evRead [1, 0xffd10000] init_state) 1) = 0xffd1"
    and b: "drop_bit 16 (evbuffer (evRead [1, 0xffd20000] init_state) 1) = 0xffd2"
    and c: "drop_bit 16 (evbuffer (evRead [1, 0xffd40000] init_state) 1) = 0xffd4"
    and u: "drop_bit 16 (evbuffer (evRead [1, 0xffd30000] init_state) 1)
              \<notin> {0xffd1, 0xffd2, 0xffd4, 0xff50, 0xff58, 0xff70 :: u32}"
    and v: "evbuffer (evRead [1, 0xffd30000] init_state) 0 + 1 \<le> MAXEVLEN"
    and w: "drop_bit 16 (evbuffer (evRead [1, 0xffd30000] init_state) 1) = 0xffd3"
    by (simp_all add: evRead_def init_state_def MAXEVLEN_def)
  show ?thesis
    using p q a b c u v w
      C3_v3_tag_table [of "evRead [1, 0xff580000] init_state"]
      C3_v3_tag_table [of "evRead [1, 0xffd10000] init_state"]
      C3_v3_tag_table [of "evRead [1, 0xffd20000] init_state"]
      C3_v3_tag_table [of "evRead [1, 0xffd40000] init_state"]
      C3_v3_tag_table [of "evRead [1, 0xffd30000] init_state"]
    by (simp add: consts_defs)
qed

text \<open>
  Claim C4. Under version 2 the event type is the tag itself, the upper 16
  bits of word 1 read as a number, for every tag: there is no table and no
  tag is rejected. The record is a physics record if and only if the tag is
  at most 14.
\<close>

theorem C4_v2_type_is_tag:
  "decode_evtype 2 (evbuffer st) = Inr (drop_bit 16 (evbuffer st 1)) \<and>
   unat (drop_bit 16 (evbuffer st 1)) = unat (evbuffer st 1) div 2 ^ 16 \<and>
   (evbuffer st 0 + 1 \<le> MAXEVLEN \<longrightarrow>
      \<not> isl (process_event 2 st) \<and>
      (physics_record 2 st \<longleftrightarrow> drop_bit 16 (evbuffer st 1) \<le> 14) \<and>
      (nphys (projr (process_event 2 st)) = nphys st + 1 \<longleftrightarrow> drop_bit 16 (evbuffer st 1) \<le> 14) \<and>
      (nphys (projr (process_event 2 st)) = nphys st \<longleftrightarrow> \<not> drop_bit 16 (evbuffer st 1) \<le> 14))"
  by (simp add: process_event_v2 Let_def physics_update_fields tag_upper_half physics_record_def
        decode_evtype_def not_less [symmetric] MAX_PHYS_EVTYPE_def)

theorem C4_v2_type_is_tag_witness:
  "evbuffer (evRead [4, 0x00050000, 0, 0, 9] init_state) 0 + 1 \<le> MAXEVLEN \<and>
   decode_evtype 2 (evbuffer (evRead [4, 0x00050000, 0, 0, 9] init_state)) = Inr 5 \<and>
   \<not> isl (process_event 2 (evRead [4, 0x00050000, 0, 0, 9] init_state)) \<and>
   physics_record 2 (evRead [4, 0x00050000, 0, 0, 9] init_state) \<and>
   nphys (projr (process_event 2 (evRead [4, 0x00050000, 0, 0, 9] init_state))) = 1"
proof -
  have h: "evbuffer (evRead [4, 0x00050000, 0, 0, 9] init_state) 0 + 1 \<le> MAXEVLEN"
    and t: "drop_bit 16 (evbuffer (evRead [4, 0x00050000, 0, 0, 9] init_state) 1) = 5"
    and n: "nphys (evRead [4, 0x00050000, 0, 0, 9] init_state) = 0"
    by (simp_all add: evRead_def init_state_def MAXEVLEN_def)
  show ?thesis
    using h t n C4_v2_type_is_tag [of "evRead [4, 0x00050000, 0, 0, 9] init_state"]
    by simp
qed

text \<open>
  Claim C7. A version 2 record with a tag above 14 gets its tag as event
  type and is not a physics record. It changes the record count, the
  maximum length over all records and the cumulative length, as every record
  does; the physics count, the physics minimum and maximum lengths and the
  last sequence number stay as they were.
\<close>

theorem C7_v2_non_physics_frame:
  assumes "evbuffer st 0 + 1 \<le> MAXEVLEN" and "14 < drop_bit 16 (evbuffer st 1)"
  shows "decode_evtype 2 (evbuffer st) = Inr (drop_bit 16 (evbuffer st 1)) \<and>
         \<not> physics_record 2 st \<and>
         process_event 2 st =
           Inr (st\<lparr>nev := nev st + 1,
                    max_evlen_any := max (max_evlen_any st) (evbuffer st 0 + 1),
                    totlen := totlen st + ucast (evbuffer st 0 + 1)\<rparr>) \<and>
         nphys (projr (process_event 2 st)) = nphys st \<and>
         min_evlen (projr (process_event 2 st)) = min_evlen st \<and>
         max_evlen (projr (process_event 2 st)) = max_evlen st \<and>
         gEvNum (projr (process_event 2 st)) = gEvNum st"
  using assms
  by (simp add: process_event_v2 Let_def physics_record_def decode_evtype_def
        not_less [symmetric] MAX_PHYS_EVTYPE_def)

theorem C7_v2_non_physics_frame_witness:
  "evbuffer (evRead [1, 0x00100000] init_state) 0 + 1 \<le> MAXEVLEN \<and>
   14 < drop_bit 16 (evbuffer (evRead [1, 0x00100000] init_state) 1) \<and>
   decode_evtype 2 (evbuffer (evRead [1, 0x00100000] init_state)) = Inr SYNC_EVTYPE \<and>
   nphys (projr (process_event 2 (evRead [1, 0x00100000] init_state))) = 0 \<and>
   min_evlen (projr (process_event 2 (evRead [1, 0x00100000] init_state))) = 0xffffffff \<and>
   max_evlen (projr (process_event 2 (evRead [1, 0x00100000] init_state))) = 0 \<and>
   gEvNum (projr (process_event 2 (evRead [1, 0x00100000] init_state))) = 0 \<and>
   max_evlen_any (projr (process_event 2 (evRead [1, 0x00100000] init_state))) = 2"
proof -
  have h: "evbuffer (evRead [1, 0x00100000] init_state) 0 + 1 \<le> MAXEVLEN"
    and t: "14 < drop_bit 16 (evbuffer (evRead [1, 0x00100000] init_state) 1)"
    by (simp_all add: evRead_def init_state_def MAXEVLEN_def)
  show ?thesis
    using h t C7_v2_non_physics_frame [OF h t]
    by (simp add: evRead_def init_state_def SYNC_EVTYPE_def MAXEVLEN_def)
qed

text \<open>
  Claim C9. For a version 2 physics record the sequence number is word 4 of
  the buffer, whatever length the record declares: nothing checks that the
  length is at least 5. Index 4 is inside the buffer of 102400 words. When
  the record declares fewer than 5 words and the read wrote no more words
  than declared, index 4 is outside the record and the number read is what
  the buffer held there before this read.
\<close>

theorem C9_v2_word4_unchecked:
  assumes "drop_bit 16 (evbuffer (evRead ws st) 1) \<le> 14"
    and "evbuffer (evRead ws st) 0 + 1 \<le> MAXEVLEN"
  shows "\<not> isl (process_event 2 (evRead ws st)) \<and>
         gEvNum (projr (process_event 2 (evRead ws st))) = evbuffer (evRead ws st) 4 \<and>
         (4 :: nat) < unat MAXEVLEN \<and>
         (length ws \<le> unat (evbuffer (evRead ws st) 0 + 1) \<and>
          evbuffer (evRead ws st) 0 + 1 < 5 \<longrightarrow>
            \<not> 4 < unat (evbuffer (evRead ws st) 0 + 1) \<and>
            gEvNum (projr (process_event 2 (evRead ws st))) = evbuffer st 4)"
proof -
  have a: "length ws \<le> unat (evbuffer (evRead ws st) 0 + 1) \<and>
          evbuffer (evRead ws st) 0 + 1 < 5 \<longrightarrow> \<not> 4 < length ws"
    by (auto simp add: word_less_nat_alt)
  have b: "\<not> 4 < length ws \<Longrightarrow> evbuffer (evRead ws st) 4 = evbuffer st 4"
    by (simp add: evRead_def)
  have c: "gEvNum (projr (process_event 2 (evRead ws st))) = evbuffer (evRead ws st) 4"
    using assms by (simp add: process_event_v2 Let_def physics_update_fields)
  have d: "\<not> isl (process_event 2 (evRead ws st))"
    using assms by (simp add: process_event_v2 Let_def)
  show ?thesis
    using a b c d by (auto simp add: MAXEVLEN_def word_less_nat_alt)
qed

theorem C9_v2_word4_unchecked_witness:
  "drop_bit 16 (evbuffer (evRead [1, 0] (evRead [4, 0, 0, 0, 7] init_state)) 1) \<le> 14 \<and>
   evbuffer (evRead [1, 0] (evRead [4, 0, 0, 0, 7] init_state)) 0 + 1 \<le> MAXEVLEN \<and>
   length [1, 0 :: u32] \<le> unat (evbuffer (evRead [1, 0] (evRead [4, 0, 0, 0, 7] init_state)) 0 + 1) \<and>
   evbuffer (evRead [1, 0] (evRead [4, 0, 0, 0, 7] init_state)) 0 + 1 < 5 \<and>
   gEvNum (projr (process_event 2 (evRead [1, 0] (evRead [4, 0, 0, 0, 7] init_state)))) = 7"
proof -
  have t: "drop_bit 16 (evbuffer (evRead [1, 0] (evRead [4, 0, 0, 0, 7] init_state)) 1) \<le> 14"
    and h: "evbuffer (evRead [1, 0] (evRead [4, 0, 0, 0, 7] init_state)) 0 + 1 \<le> MAXEVLEN"
    and l: "length [1, 0 :: u32] \<le> unat (evbuffer (evRead [1, 0] (evRead [4, 0, 0, 0, 7] init_state)) 0 + 1)"
    and s: "evbuffer (evRead [1, 0] (evRead [4, 0, 0, 0, 7] init_state)) 0 + 1 < 5"
    and e: "evbuffer (evRead [4, 0, 0, 0, 7] init_state) 4 = 7"
    by (simp_all add: evRead_def init_state_def MAXEVLEN_def)
  from C9_v2_word4_unchecked [OF t h] l s
  have "gEvNum (projr (process_event 2 (evRead [1, 0] (evRead [4, 0, 0, 0, 7] init_state)))) =
        evbuffer (evRead [4, 0, 0, 0, 7] init_state) 4"
    by blast
  with t h l s e show ?thesis
    by simp
qed

subsection \<open>What a record, a loop and a file leave unchanged\<close>

lemma process_event_frame:
  "process_event v st = Inr st' \<Longrightarrow>
     handle st' = handle st \<and> lib_open st' = lib_open st \<and> evbuffer st' = evbuffer st"
  "process_event v st = Inl (e, st') \<Longrightarrow>
     handle st' = handle st \<and> lib_open st' = lib_open st \<and> evbuffer st' = evbuffer st"
  by (auto simp add: process_event_def Let_def physics_update_fields split: if_splits sum.splits)

lemma process_event_seq:
  "process_event v st = Inr st' \<Longrightarrow> gEvNum st' = seq_after (gEvNum st) (v, st)"
  "process_event v st = Inl (e, st') \<Longrightarrow> gEvNum st' = seq_after (gEvNum st) (v, st)"
  by (auto simp add: process_event_def Let_def physics_update_fields seq_after_def physics_record_def
        split: if_splits sum.splits)

lemma evRead_frame:
  "gEvNum (evRead ws st) = gEvNum st" "handle (evRead ws st) = handle st"
  "lib_open (evRead ws st) = lib_open st" "nev (evRead ws st) = nev st"
  "nphys (evRead ws st) = nphys st" "totlen (evRead ws st) = totlen st"
  "min_evlen (evRead ws st) = min_evlen st" "max_evlen (evRead ws st) = max_evlen st"
  "max_evlen_any (evRead ws st) = max_evlen_any st" "cout (evRead ws st) = cout st"
  by (simp_all add: evRead_def)

lemma last_seq_simps:
  "last_seq g [] = g" "last_seq g (r # rs) = last_seq (seq_after g r) rs"
  "last_seq g (rs @ rs') = last_seq (last_seq g rs) rs'"
  by (simp_all add: last_seq_def)

lemma read_loop_seq:
  "read_loop v calls st = Inr (r, st') \<Longrightarrow> gEvNum st' = last_seq (gEvNum st) (loop_records v calls st)"
  "read_loop v calls st = Inl (e, st') \<Longrightarrow> gEvNum st' = last_seq (gEvNum st) (loop_records v calls st)"
proof (induction calls arbitrary: st)
  case Nil
  { case 1 then show ?case by (simp add: last_seq_simps) }
  { case 2 then show ?case by simp }
next
  case (Cons c calls)
  obtain ret ws where c: "c = (ret, ws)" by (cases c)
  { case 1
    then show ?case
      using Cons.IH(1) c
      by (auto simp add: last_seq_simps evRead_frame split: if_splits sum.splits
            dest!: process_event_seq) }
  { case 2
    then show ?case
      using Cons.IH(2) c
      by (auto simp add: last_seq_simps evRead_frame split: if_splits sum.splits
            dest!: process_event_seq) }
qed

lemma read_loop_frame:
  "read_loop v calls st = Inr (r, st') \<Longrightarrow> handle st' = handle st \<and> lib_open st' = lib_open st"
  "read_loop v calls st = Inl (e, st') \<Longrightarrow> handle st' = handle st \<and> lib_open st' = lib_open st"
proof (induction calls arbitrary: st)
  case Nil
  { case 1 then show ?case by simp }
  { case 2 then show ?case by simp }
next
  case (Cons c calls)
  obtain ret ws where c: "c = (ret, ws)" by (cases c)
  { case 1
    then show ?case
      using Cons.IH(1) c
      by (auto simp add: evRead_frame split: if_splits sum.splits dest!: process_event_frame) }
  { case 2
    then show ?case
      using Cons.IH(2) c
      by (auto simp add: evRead_frame split: if_splits sum.splits dest!: process_event_frame) }
qed

lemma open_file_ok:
  "open_file f st = Inr (v, st') \<Longrightarrow>
     v = evIoctl_version f \<and> (v = 2 \<or> v = 3) \<and> gEvNum st' = gEvNum st \<and>
     handle st' = evOpen_handle f \<and> lib_open st' = handle st' # lib_open st \<and>
     nev st' = nev st \<and> nphys st' = nphys st \<and> totlen st' = totlen st \<and>
     min_evlen st' = min_evlen st \<and> max_evlen st' = max_evlen st \<and>
     evbuffer st' = evbuffer st"
  by (auto simp add: open_file_def Let_def split: if_splits)

lemma open_file_error:
  "open_file f st = Inl (e, st') \<Longrightarrow>
     gEvNum st' = gEvNum st \<and>
     (lib_open st' = lib_open st \<and> e = OpenFailure (evOpen_ret f) \<or>
      lib_open st' = handle st' # lib_open st)"
  by (auto simp add: open_file_def Let_def split: if_splits)

lemma process_file_seq:
  "process_file f st = Inr st' \<Longrightarrow> gEvNum st' = last_seq (gEvNum st) (file_records f st)"
  "process_file f st = Inl (e, st') \<Longrightarrow> gEvNum st' = last_seq (gEvNum st) (file_records f st)"
  by (auto simp add: process_file_def file_records_def evClose_def last_seq_simps
        split: sum.splits prod.splits if_splits
        dest!: open_file_ok open_file_error read_loop_seq)

lemma process_files_seq:
  "process_files fs st = Inr st' \<Longrightarrow> gEvNum st' = last_seq (gEvNum st) (run_records fs st)"
  "process_files fs st = Inl (e, st') \<Longrightarrow> gEvNum st' = last_seq (gEvNum st) (run_records fs st)"
proof (induction fs arbitrary: st)
  case Nil
  { case 1 then show ?case by (simp add: last_seq_simps) }
  { case 2 then show ?case by simp }
next
  case (Cons f fs)
  { case 1
    then show ?case
      using Cons.IH(1)
      by (auto simp add: last_seq_simps split: sum.splits dest!: process_file_seq) }
  { case 2
    then show ?case
      using Cons.IH(2)
      by (auto simp add: last_seq_simps split: sum.splits dest!: process_file_seq) }
qed

lemma process_files_append:
  "process_files (fs @ gs) st =
     (case process_files fs st of Inl x \<Rightarrow> Inl x | Inr st' \<Rightarrow> process_files gs st')"
  by (induction fs arbitrary: st) (auto split: sum.splits)

lemma run_records_append:
  "run_records (fs @ gs) st =
     run_records fs st @
     (case process_files fs st of Inl x \<Rightarrow> [] | Inr st' \<Rightarrow> run_records gs st')"
  by (induction fs arbitrary: st) (auto split: sum.splits)

text \<open>The files of the library: none is open between two files.\<close>

lemma process_file_lib:
  assumes "lib_open st = []"
  shows "process_file f st = Inr st' \<Longrightarrow> lib_open st' = []"
    and "process_file f st = Inl (e, st') \<Longrightarrow> lib_open (evClose st') = []"
  using assms
  by (auto simp add: process_file_def evClose_def
        split: sum.splits prod.splits if_splits
        dest!: open_file_ok open_file_error read_loop_frame)

lemma process_files_lib:
  assumes "lib_open st = []"
  shows "process_files fs st = Inr st' \<Longrightarrow> lib_open st' = []"
    and "process_files fs st = Inl (e, st') \<Longrightarrow> lib_open (evClose st') = []"
  using assms
proof (induction fs arbitrary: st)
  case Nil
  { case 1 then show ?case by simp }
  { case 2 then show ?case by simp }
next
  case (Cons f fs)
  { case 1
    then show ?case
      using Cons.IH(1) process_file_lib(1) [of st f]
      by (auto split: sum.splits) }
  { case 2
    then show ?case
      using Cons.IH(2) process_file_lib [of st f]
      by (auto split: sum.splits) }
qed

subsection \<open>The sequence number across a run\<close>











subsection \<open>Exceptions\<close>

text \<open>
  Every failure of the library and every rejected record is an exception of
  the loop over the files.
\<close>

lemma open_failure_throws:
  "evOpen_ret f \<noteq> S_SUCCESS \<Longrightarrow> process_file f st = Inl (OpenFailure (evOpen_ret f), st)"
  by (simp add: process_file_def open_file_def)

lemma bad_handle_throws:
  "evOpen_ret f = S_SUCCESS \<Longrightarrow> evOpen_handle f = 0 \<Longrightarrow>
   isl (process_file f st) \<and> fst (projl (process_file f st)) = BadFileHandle"
  by (simp add: process_file_def open_file_def)

lemma version_query_failure_throws:
  "evOpen_ret f = S_SUCCESS \<Longrightarrow> evOpen_handle f \<noteq> 0 \<Longrightarrow> evIoctl_ret f \<noteq> S_SUCCESS \<Longrightarrow>
   isl (process_file f st) \<and>
   fst (projl (process_file f st)) = VersionQueryFailure (evIoctl_ret f)"
  by (simp add: process_file_def open_file_def)

lemma unsupported_version_throws:
  "evOpen_ret f = S_SUCCESS \<Longrightarrow> evOpen_handle f \<noteq> 0 \<Longrightarrow> evIoctl_ret f = S_SUCCESS \<Longrightarrow>
   evIoctl_version f \<noteq> 2 \<Longrightarrow> evIoctl_version f \<noteq> 3 \<Longrightarrow>
   isl (process_file f st) \<and> fst (projl (process_file f st)) = UnsupportedVersion"
  by (simp add: process_file_def open_file_def)

lemma read_failure_throws:
  "open_file f st = Inr (v, st3) \<Longrightarrow> read_loop v (evRead_calls f) st3 = Inr (ret, st4) \<Longrightarrow>
   ret \<noteq> EOF \<Longrightarrow> process_file f st = Inl (ReadFailure ret, st4)"
  by (simp add: process_file_def)

lemma record_error_throws:
  "process_event v (evRead ws st) = Inl x \<Longrightarrow>
   read_loop v ((S_SUCCESS, ws) # calls) st = Inl x"
  by simp

lemma loop_error_throws:
  "open_file f st = Inr (v, st3) \<Longrightarrow> read_loop v (evRead_calls f) st3 = Inl x \<Longrightarrow>
   process_file f st = Inl x"
  by (simp add: process_file_def)

lemma file_error_throws:
  "process_file f st = Inl x \<Longrightarrow> process_files (f # gs) st = Inl x"
  by simp

lemma main_error:
  assumes "process_files fnames init_state = Inl (e, st)"
  shows "main fnames w =
           \<lparr> retcode = 2, printed = None, cerr = Some (gEvNum st, e), final = evClose st \<rparr>"
proof -
  from assms have "fnames \<noteq> []"
    by auto
  with assms show ?thesis
    by (simp add: main_def)
qed

lemma read_loop_append:
  assumes "list_all (\<lambda>c. fst c = S_SUCCESS) pre"
  shows "read_loop v pre st = Inr (r, st') \<Longrightarrow> read_loop v (pre @ calls) st = read_loop v calls st'"
  using assms
proof (induction pre arbitrary: st)
  case Nil
  then show ?case by simp
next
  case (Cons c pre)
  obtain ret ws where c: "c = (ret, ws)" by (cases c)
  from Cons.prems c show ?case
    by (auto split: sum.splits intro: Cons.IH)
qed

lemma main_abort:
  assumes "process_files fs init_state = Inr s" and "process_file f s = Inl (e, s')"
  shows "aborted (main (fs @ f # gs) w) (gEvNum s') e"
proof -
  from assms have err: "process_files (fs @ f # gs) init_state = Inl (e, s')"
    by (simp add: process_files_append)
  have "lib_open (evClose s') = []"
    using process_files_lib(2) [OF _ err] by (simp add: init_state_def)
  with main_error [OF err] show ?thesis
    by (simp add: aborted_def)
qed

lemma open_errors:
  "evOpen_ret f \<noteq> S_SUCCESS \<Longrightarrow>
     \<exists>s'. process_file f s = Inl (OpenFailure (evOpen_ret f), s') \<and> gEvNum s' = gEvNum s"
  "evOpen_ret f = S_SUCCESS \<Longrightarrow> evOpen_handle f = 0 \<Longrightarrow>
     \<exists>s'. process_file f s = Inl (BadFileHandle, s') \<and> gEvNum s' = gEvNum s"
  "evOpen_ret f = S_SUCCESS \<Longrightarrow> evOpen_handle f \<noteq> 0 \<Longrightarrow> evIoctl_ret f \<noteq> S_SUCCESS \<Longrightarrow>
     \<exists>s'. process_file f s = Inl (VersionQueryFailure (evIoctl_ret f), s') \<and> gEvNum s' = gEvNum s"
  "evOpen_ret f = S_SUCCESS \<Longrightarrow> evOpen_handle f \<noteq> 0 \<Longrightarrow> evIoctl_ret f = S_SUCCESS \<Longrightarrow>
   evIoctl_version f \<noteq> 2 \<Longrightarrow> evIoctl_version f \<noteq> 3 \<Longrightarrow>
     \<exists>s'. process_file f s = Inl (UnsupportedVersion, s') \<and> gEvNum s' = gEvNum s"
  by (simp_all add: process_file_def open_file_def)

lemma unrecognized_tag_rejects:
  assumes "\<not> MAXEVLEN < evbuffer st 0 + 1"
    and "drop_bit 16 (evbuffer st 1) \<notin> {0xffd1, 0xffd2, 0xffd4, 0xff50, 0xff58, 0xff70}"
  shows "\<exists>st'. process_event 3 st = Inl (UnrecognizedTag (drop_bit 16 (evbuffer st 1)), st') \<and>
               gEvNum st' = gEvNum st"
  using assms
  by (simp add: process_event_def decode_evtype_def coda3_evtype_def Let_def)

lemma loop_errors:
  assumes op: "open_file f s = Inr (v, s3)"
    and pre: "list_all (\<lambda>c. fst c = S_SUCCESS) pre" "read_loop v pre s3 = Inr (r, s4)"
    and calls: "evRead_calls f = pre @ (ret, ws) # post"
  shows "ret \<noteq> S_SUCCESS \<Longrightarrow> ret \<noteq> EOF \<Longrightarrow>
           \<exists>s'. process_file f s = Inl (ReadFailure ret, s') \<and> gEvNum s' = gEvNum s4"
    and "ret = S_SUCCESS \<Longrightarrow> MAXEVLEN < evbuffer (evRead ws s4) 0 + 1 \<Longrightarrow>
           \<exists>s'. process_file f s = Inl (BufferOverflow, s') \<and> gEvNum s' = gEvNum s4"
    and "ret = S_SUCCESS \<Longrightarrow> \<not> MAXEVLEN < evbuffer (evRead ws s4) 0 + 1 \<Longrightarrow> v = 3 \<Longrightarrow>
         drop_bit 16 (evbuffer (evRead ws s4) 1) \<notin> {0xffd1, 0xffd2, 0xffd4, 0xff50, 0xff58, 0xff70} \<Longrightarrow>
           \<exists>s'. process_file f s =
                  Inl (UnrecognizedTag (drop_bit 16 (evbuffer (evRead ws s4) 1)), s') \<and>
                gEvNum s' = gEvNum s4"
proof -
  have loop: "read_loop v (evRead_calls f) s3 = read_loop v ((ret, ws) # post) s4"
    using read_loop_append [OF pre] calls by simp
  show "\<exists>s'. process_file f s = Inl (ReadFailure ret, s') \<and> gEvNum s' = gEvNum s4"
    if "ret \<noteq> S_SUCCESS" "ret \<noteq> EOF"
    using that op loop by (simp add: process_file_def evRead_frame)
  show "\<exists>s'. process_file f s = Inl (BufferOverflow, s') \<and> gEvNum s' = gEvNum s4"
    if "ret = S_SUCCESS" "MAXEVLEN < evbuffer (evRead ws s4) 0 + 1"
    using that op loop overflow_guard_rejects [of "evRead ws s4" v]
    by (simp add: process_file_def evRead_frame)
  show "\<exists>s'. process_file f s =
                  Inl (UnrecognizedTag (drop_bit 16 (evbuffer (evRead ws s4) 1)), s') \<and>
                gEvNum s' = gEvNum s4"
    if "ret = S_SUCCESS" "\<not> MAXEVLEN < evbuffer (evRead ws s4) 0 + 1" "v = 3"
      "drop_bit 16 (evbuffer (evRead ws s4) 1) \<notin> {0xffd1, 0xffd2, 0xffd4, 0xff50, 0xff58, 0xff70}"
  proof -
    from unrecognized_tag_rejects [OF that(2) that(4)] obtain st' where
      "process_event 3 (evRead ws s4) =
         Inl (UnrecognizedTag (drop_bit 16 (evbuffer (evRead ws s4) 1)), st')"
      "gEvNum st' = gEvNum (evRead ws s4)"
      by blast
    with that(1) that(3) op loop show ?thesis
      by (simp add: process_file_def evRead_frame)
  qed
qed

lemma open_file_opens:
  assumes "evOpen_ret f = S_SUCCESS" "evOpen_handle f \<noteq> 0" "evIoctl_ret f = S_SUCCESS"
    and "evIoctl_version f = v" "v = 2 \<or> v = 3"
  shows "open_file f s =
           Inr (v, s\<lparr>handle := evOpen_handle f, lib_open := evOpen_handle f # lib_open s,
                     cout := cout s @ [Opened (fname f), EvioVersion v]\<rparr>)"
  using assms by (auto simp add: open_file_def Let_def)

text \<open>
  Claim C6. Every failure ends the run in the handler. Let the files \<open>fs\<close>
  be processed without an exception and let \<open>f\<close> be the next file. If
  \<open>evOpen\<close> fails for \<open>f\<close>, or stores a null handle, or \<open>evIoctl\<close> fails, or the
  version is neither 2 nor 3, or, after \<open>f\<close> is opened and the records \<open>pre\<close>
  are processed, the next \<open>evRead\<close> fails with a status other than \<open>EOF\<close>, or
  delivers a record longer than the buffer or, under version 3, a record
  with a tag outside the table, then the run over \<open>fs\<close>, \<open>f\<close> and any further
  files \<open>gs\<close> is aborted: exit status 2, no report, a line on \<open>cerr\<close> with
  that cause and the sequence number reached, and no file left open. In
  general, when the loop over the files raises an exception the sequence
  number on \<open>cerr\<close> is what the records seen so far left behind, and files
  after the failing one change nothing.
\<close>

theorem C6_error_aborts_run:
  assumes "process_files fs init_state = Inr s"
  shows
    "(evOpen_ret f \<noteq> S_SUCCESS \<longrightarrow>
        aborted (main (fs @ f # gs) w) (gEvNum s) (OpenFailure (evOpen_ret f))) \<and>
     (evOpen_ret f = S_SUCCESS \<and> evOpen_handle f = 0 \<longrightarrow>
        aborted (main (fs @ f # gs) w) (gEvNum s) BadFileHandle) \<and>
     (evOpen_ret f = S_SUCCESS \<and> evOpen_handle f \<noteq> 0 \<and> evIoctl_ret f \<noteq> S_SUCCESS \<longrightarrow>
        aborted (main (fs @ f # gs) w) (gEvNum s) (VersionQueryFailure (evIoctl_ret f))) \<and>
     (evOpen_ret f = S_SUCCESS \<and> evOpen_handle f \<noteq> 0 \<and> evIoctl_ret f = S_SUCCESS \<and>
      evIoctl_version f \<noteq> 2 \<and> evIoctl_version f \<noteq> 3 \<longrightarrow>
        aborted (main (fs @ f # gs) w) (gEvNum s) UnsupportedVersion) \<and>
     (evOpen_ret f = S_SUCCESS \<and> evOpen_handle f \<noteq> 0 \<and> evIoctl_ret f = S_SUCCESS \<and>
      evIoctl_version f = v \<and> (v = 2 \<or> v = 3) \<and>
      s3 = s\<lparr>handle := evOpen_handle f, lib_open := evOpen_handle f # lib_open s,
               cout := cout s @ [Opened (fname f), EvioVersion v]\<rparr> \<and>
      evRead_calls f = pre @ (ret, ws) # post \<and>
      list_all (\<lambda>c. fst c = S_SUCCESS) pre \<and> read_loop v pre s3 = Inr (r, s4) \<longrightarrow>
        (ret \<noteq> S_SUCCESS \<and> ret \<noteq> EOF \<longrightarrow>
           aborted (main (fs @ f # gs) w) (gEvNum s4) (ReadFailure ret)) \<and>
        (ret = S_SUCCESS \<and> MAXEVLEN < evbuffer (evRead ws s4) 0 + 1 \<longrightarrow>
           aborted (main (fs @ f # gs) w) (gEvNum s4) BufferOverflow) \<and>
        (ret = S_SUCCESS \<and> \<not> MAXEVLEN < evbuffer (evRead ws s4) 0 + 1 \<and> v = 3 \<and>
         drop_bit 16 (evbuffer (evRead ws s4) 1)
           \<notin> {0xffd1, 0xffd2, 0xffd4, 0xff50, 0xff58, 0xff70} \<longrightarrow>
           aborted (main (fs @ f # gs) w) (gEvNum s4)
             (UnrecognizedTag (drop_bit 16 (evbuffer (evRead ws s4) 1))))) \<and>
     (isl (process_files fnames init_state) \<longrightarrow>
        aborted (main fnames w) (last_seq 0 (run_records fnames init_state))
          (fst (projl (process_files fnames init_state))) \<and>
        final (main fnames w) = evClose (snd (projl (process_files fnames init_state))) \<and>
        main (fnames @ rest) w = main fnames w)"
proof -
  note abort = main_abort [OF assms, of f _ _ gs w]
  have c1: "evOpen_ret f \<noteq> S_SUCCESS \<longrightarrow>
        aborted (main (fs @ f # gs) w) (gEvNum s) (OpenFailure (evOpen_ret f))"
    using open_errors(1) [of f s] abort by metis
  have c2: "evOpen_ret f = S_SUCCESS \<and> evOpen_handle f = 0 \<longrightarrow>
        aborted (main (fs @ f # gs) w) (gEvNum s) BadFileHandle"
    using open_errors(2) [of f s] abort by metis
  have c3: "evOpen_ret f = S_SUCCESS \<and> evOpen_handle f \<noteq> 0 \<and> evIoctl_ret f \<noteq> S_SUCCESS \<longrightarrow>
        aborted (main (fs @ f # gs) w) (gEvNum s) (VersionQueryFailure (evIoctl_ret f))"
    using open_errors(3) [of f s] abort by metis
  have c4: "evOpen_ret f = S_SUCCESS \<and> evOpen_handle f \<noteq> 0 \<and> evIoctl_ret f = S_SUCCESS \<and>
      evIoctl_version f \<noteq> 2 \<and> evIoctl_version f \<noteq> 3 \<longrightarrow>
        aborted (main (fs @ f # gs) w) (gEvNum s) UnsupportedVersion"
    using open_errors(4) [of f s] abort by metis
  have c5: "(ret \<noteq> S_SUCCESS \<and> ret \<noteq> EOF \<longrightarrow>
           aborted (main (fs @ f # gs) w) (gEvNum s4) (ReadFailure ret)) \<and>
        (ret = S_SUCCESS \<and> MAXEVLEN < evbuffer (evRead ws s4) 0 + 1 \<longrightarrow>
           aborted (main (fs @ f # gs) w) (gEvNum s4) BufferOverflow) \<and>
        (ret = S_SUCCESS \<and> \<not> MAXEVLEN < evbuffer (evRead ws s4) 0 + 1 \<and> v = 3 \<and>
         drop_bit 16 (evbuffer (evRead ws s4) 1)
           \<notin> {0xffd1, 0xffd2, 0xffd4, 0xff50, 0xff58, 0xff70} \<longrightarrow>
           aborted (main (fs @ f # gs) w) (gEvNum s4)
             (UnrecognizedTag (drop_bit 16 (evbuffer (evRead ws s4) 1))))"
    if h: "evOpen_ret f = S_SUCCESS \<and> evOpen_handle f \<noteq> 0 \<and> evIoctl_ret f = S_SUCCESS \<and>
      evIoctl_version f = v \<and> (v = 2 \<or> v = 3) \<and>
      s3 = s\<lparr>handle := evOpen_handle f, lib_open := evOpen_handle f # lib_open s,
               cout := cout s @ [Opened (fname f), EvioVersion v]\<rparr> \<and>
      evRead_calls f = pre @ (ret, ws) # post \<and>
      list_all (\<lambda>c. fst c = S_SUCCESS) pre \<and> read_loop v pre s3 = Inr (r, s4)"
  proof -
    from h have op: "open_file f s = Inr (v, s3)"
      using open_file_opens [of f v s] by simp
    from h have pre: "list_all (\<lambda>c. fst c = S_SUCCESS) pre" "read_loop v pre s3 = Inr (r, s4)"
      and calls: "evRead_calls f = pre @ (ret, ws) # post"
      by blast+
    note le = loop_errors [OF op pre calls]
    have a: "ret \<noteq> S_SUCCESS \<and> ret \<noteq> EOF \<longrightarrow>
           aborted (main (fs @ f # gs) w) (gEvNum s4) (ReadFailure ret)"
      using le(1) abort by metis
    have b: "ret = S_SUCCESS \<and> MAXEVLEN < evbuffer (evRead ws s4) 0 + 1 \<longrightarrow>
           aborted (main (fs @ f # gs) w) (gEvNum s4) BufferOverflow"
      using le(2) abort by metis
    have c: "ret = S_SUCCESS \<and> \<not> MAXEVLEN < evbuffer (evRead ws s4) 0 + 1 \<and> v = 3 \<and>
         drop_bit 16 (evbuffer (evRead ws s4) 1)
           \<notin> {0xffd1, 0xffd2, 0xffd4, 0xff50, 0xff58, 0xff70} \<longrightarrow>
           aborted (main (fs @ f # gs) w) (gEvNum s4)
             (UnrecognizedTag (drop_bit 16 (evbuffer (evRead ws s4) 1)))"
      using le(3) abort by metis
    from a b c show ?thesis
      by blast
  qed
  have run: "aborted (main fnames w) (last_seq 0 (run_records fnames init_state))
          (fst (projl (process_files fnames init_state))) \<and>
        final (main fnames w) = evClose (snd (projl (process_files fnames init_state))) \<and>
        main (fnames @ rest) w = main fnames w"
    if "isl (process_files fnames init_state)"
  proof -
    from that obtain e st' where err: "process_files fnames init_state = Inl (e, st')"
      by (cases "process_files fnames init_state") auto
    have seq: "gEvNum st' = last_seq 0 (run_records fnames init_state)"
      using process_files_seq(2) [OF err] by (simp add: init_state_def)
    have lib: "lib_open (evClose st') = []"
      using process_files_lib(2) [OF _ err] by (simp add: init_state_def)
    have more: "process_files (fnames @ rest) init_state = Inl (e, st')"
      using err by (simp add: process_files_append)
    show ?thesis
      using main_error [OF err] main_error [OF more] seq lib err
      by (simp add: aborted_def)
  qed
  from c1 c2 c3 c4 c5 run show ?thesis
    by blast
qed

theorem C6_error_aborts_run_witness:
  "process_files [sample_file 2 [(0, [4, 0, 0, 0, 41])]] init_state =
     Inr (projr (process_files [sample_file 2 [(0, [4, 0, 0, 0, 41])]] init_state)) \<and>
   aborted (main [sample_file 2 [(0, [4, 0, 0, 0, 41])],
                  (sample_file 2 [])\<lparr>evOpen_ret := - 3\<rparr>, sample_file 2 []] 1)
     41 (OpenFailure (- 3)) \<and>
   aborted (main [sample_file 2 [(0, [4, 0, 0, 0, 41])],
                  (sample_file 2 [])\<lparr>evOpen_handle := 0\<rparr>, sample_file 2 []] 1)
     41 BadFileHandle \<and>
   aborted (main [sample_file 2 [(0, [4, 0, 0, 0, 41])],
                  (sample_file 2 [])\<lparr>evIoctl_ret := - 3\<rparr>, sample_file 2 []] 1)
     41 (VersionQueryFailure (- 3)) \<and>
   aborted (main [sample_file 2 [(0, [4, 0, 0, 0, 41])], sample_file 4 [], sample_file 2 []] 1)
     41 UnsupportedVersion \<and>
   aborted (main [sample_file 2 [(0, [4, 0, 0, 0, 41]), (- 5, [])], sample_file 2 []] 1)
     41 (ReadFailure (- 5)) \<and>
   aborted (main [sample_file 2 [(0, [4, 0, 0, 0, 41]), (0, [102400, 0])], sample_file 2 []] 1)
     41 BufferOverflow \<and>
   aborted (main [sample_file 3 [(0, [1, 0xff500000]), (0, [1, 0x00010000])], sample_file 2 []] 1)
     1 (UnrecognizedTag 1) \<and>
   isl (process_files
          [sample_file 2 [(0, [4, 0, 0, 0, 41])], sample_file 3 [(0, [1, 0x00010000])]]
          init_state) \<and>
   aborted (main [sample_file 2 [(0, [4, 0, 0, 0, 41])], sample_file 3 [(0, [1, 0x00010000])]] 1)
     41 (UnrecognizedTag 1) \<and>
   main ([sample_file 2 [(0, [4, 0, 0, 0, 41])], sample_file 3 [(0, [1, 0x00010000])]] @
         [sample_file 2 []]) 1 =
     main [sample_file 2 [(0, [4, 0, 0, 0, 41])], sample_file 3 [(0, [1, 0x00010000])]] 1"
proof -
  let ?A = "sample_file 2 [(0, [4, 0, 0, 0, 41])]"
  let ?E = "sample_file 2 []"
  let ?s = "projr (process_files [?A] init_state)"
  have h: "process_files [?A] init_state = Inr ?s"
    by (simp add: run_eval)
  have g: "gEvNum ?s = 41"
    by (simp add: run_eval)
  note c6 = C6_error_aborts_run [OF h, where gs = "[?E]" and w = 1]
  let ?F1 = "?E\<lparr>evOpen_ret := - 3\<rparr>"
  have "evOpen_ret ?F1 \<noteq> S_SUCCESS"
    by (simp add: sample_file_def S_SUCCESS_def)
  with c6 [where f = ?F1]
  have "aborted (main ([?A] @ ?F1 # [?E]) 1) (gEvNum ?s) (OpenFailure (evOpen_ret ?F1))"
    by blast
  then have o1: "aborted (main [?A, ?F1, ?E] 1) 41 (OpenFailure (- 3))"
    unfolding g by (simp add: sample_file_def)
  let ?F2 = "?E\<lparr>evOpen_handle := 0\<rparr>"
  have "evOpen_ret ?F2 = S_SUCCESS \<and> evOpen_handle ?F2 = 0"
    by (simp add: sample_file_def)
  with c6 [where f = ?F2]
  have "aborted (main ([?A] @ ?F2 # [?E]) 1) (gEvNum ?s) BadFileHandle"
    by blast
  then have o2: "aborted (main [?A, ?F2, ?E] 1) 41 BadFileHandle"
    unfolding g by simp
  let ?F3 = "?E\<lparr>evIoctl_ret := - 3\<rparr>"
  have "evOpen_ret ?F3 = S_SUCCESS \<and> evOpen_handle ?F3 \<noteq> 0 \<and> evIoctl_ret ?F3 \<noteq> S_SUCCESS"
    by (simp add: sample_file_def S_SUCCESS_def)
  with c6 [where f = ?F3]
  have "aborted (main ([?A] @ ?F3 # [?E]) 1) (gEvNum ?s) (VersionQueryFailure (evIoctl_ret ?F3))"
    by blast
  then have o3: "aborted (main [?A, ?F3, ?E] 1) 41 (VersionQueryFailure (- 3))"
    unfolding g by (simp add: sample_file_def)
  let ?F4 = "sample_file 4 []"
  have "evOpen_ret ?F4 = S_SUCCESS \<and> evOpen_handle ?F4 \<noteq> 0 \<and> evIoctl_ret ?F4 = S_SUCCESS \<and>
      evIoctl_version ?F4 \<noteq> 2 \<and> evIoctl_version ?F4 \<noteq> 3"
    by (simp add: sample_file_def)
  with c6 [where f = ?F4]
  have "aborted (main ([?A] @ ?F4 # [?E]) 1) (gEvNum ?s) UnsupportedVersion"
    by blast
  then have o4: "aborted (main [?A, ?F4, ?E] 1) 41 UnsupportedVersion"
    unfolding g by simp
  have h0: "process_files [] init_state = Inr init_state"
    by simp
  note c0 = C6_error_aborts_run [OF h0, where gs = "[?E]" and w = 1]
  let ?pre = "[(0, [4, 0, 0, 0, 41 :: u32])] :: (int \<times> u32 list) list"
  let ?s3 = "init_state\<lparr>handle := 3, lib_open := 3 # lib_open init_state,
               cout := cout init_state @ [Opened ''run.dat'', EvioVersion 2]\<rparr>"
  let ?s4 = "snd (projr (read_loop 2 ?pre ?s3))"
  have pre2: "read_loop 2 ?pre ?s3 = Inr (EOF, ?s4)"
    by (simp add: run_eval)
  have g4: "gEvNum ?s4 = 41"
    by (simp add: run_eval)
  let ?F5 = "sample_file 2 (?pre @ (- 5, []) # [])"
  have "evOpen_ret ?F5 = S_SUCCESS \<and> evOpen_handle ?F5 \<noteq> 0 \<and> evIoctl_ret ?F5 = S_SUCCESS \<and>
      evIoctl_version ?F5 = 2 \<and> ((2 :: int) = 2 \<or> (2 :: int) = 3) \<and>
      ?s3 = init_state\<lparr>handle := evOpen_handle ?F5,
               lib_open := evOpen_handle ?F5 # lib_open init_state,
               cout := cout init_state @ [Opened (fname ?F5), EvioVersion 2]\<rparr> \<and>
      evRead_calls ?F5 = ?pre @ (- 5, []) # [] \<and>
      list_all (\<lambda>c. fst c = S_SUCCESS) ?pre \<and> read_loop 2 ?pre ?s3 = Inr (EOF, ?s4)"
    using pre2 by (simp add: sample_file_def S_SUCCESS_def)
  moreover have "(- 5 :: int) \<noteq> S_SUCCESS \<and> (- 5 :: int) \<noteq> EOF"
    by (simp add: S_SUCCESS_def EOF_def)
  ultimately have "aborted (main ([] @ ?F5 # [?E]) 1) (gEvNum ?s4) (ReadFailure (- 5))"
    using c0 [where f = ?F5 and v = 2 and ?s3.0 = ?s3 and pre = ?pre and ret = "- 5"
        and ws = "[]" and post = "[]" and r = EOF and ?s4.0 = ?s4]
    by blast
  then have r1: "aborted (main [sample_file 2 [(0, [4, 0, 0, 0, 41]), (- 5, [])], ?E] 1)
              41 (ReadFailure (- 5))"
    unfolding g4 by simp
  let ?F6 = "sample_file 2 (?pre @ (0, [102400, 0]) # [])"
  have "evOpen_ret ?F6 = S_SUCCESS \<and> evOpen_handle ?F6 \<noteq> 0 \<and> evIoctl_ret ?F6 = S_SUCCESS \<and>
      evIoctl_version ?F6 = 2 \<and> ((2 :: int) = 2 \<or> (2 :: int) = 3) \<and>
      ?s3 = init_state\<lparr>handle := evOpen_handle ?F6,
               lib_open := evOpen_handle ?F6 # lib_open init_state,
               cout := cout init_state @ [Opened (fname ?F6), EvioVersion 2]\<rparr> \<and>
      evRead_calls ?F6 = ?pre @ (0, [102400, 0]) # [] \<and>
      list_all (\<lambda>c. fst c = S_SUCCESS) ?pre \<and> read_loop 2 ?pre ?s3 = Inr (EOF, ?s4)"
    using pre2 by (simp add: sample_file_def S_SUCCESS_def)
  moreover have "(0 :: int) = S_SUCCESS \<and> MAXEVLEN < evbuffer (evRead [102400, 0] ?s4) 0 + 1"
    by (simp add: evRead_def MAXEVLEN_def S_SUCCESS_def)
  ultimately have "aborted (main ([] @ ?F6 # [?E]) 1) (gEvNum ?s4) BufferOverflow"
    using c0 [where f = ?F6 and v = 2 and ?s3.0 = ?s3 and pre = ?pre and ret = 0
        and ws = "[102400, 0]" and post = "[]" and r = EOF and ?s4.0 = ?s4]
    by blast
  then have r2: "aborted (main [sample_file 2 [(0, [4, 0, 0, 0, 41]), (0, [102400, 0])], ?E] 1)
              41 BufferOverflow"
    unfolding g4 by simp
  let ?pre3 = "[(0, [1, 0xff500000 :: u32])] :: (int \<times> u32 list) list"
  let ?t3 = "init_state\<lparr>handle := 3, lib_open := 3 # lib_open init_state,
               cout := cout init_state @ [Opened ''run.dat'', EvioVersion 3]\<rparr>"
  let ?t4 = "snd (projr (read_loop 3 ?pre3 ?t3))"
  have pre3: "read_loop 3 ?pre3 ?t3 = Inr (EOF, ?t4)"
    by (simp add: run_eval)
  have g5: "gEvNum ?t4 = 1"
    by (simp add: run_eval)
  have tag: "drop_bit 16 (evbuffer (evRead [1, 0x00010000] ?t4) 1) = 1"
    by (simp add: evRead_def MAXEVLEN_def)
  let ?F7 = "sample_file 3 (?pre3 @ (0, [1, 0x00010000]) # [])"
  have "evOpen_ret ?F7 = S_SUCCESS \<and> evOpen_handle ?F7 \<noteq> 0 \<and> evIoctl_ret ?F7 = S_SUCCESS \<and>
      evIoctl_version ?F7 = 3 \<and> ((3 :: int) = 2 \<or> (3 :: int) = 3) \<and>
      ?t3 = init_state\<lparr>handle := evOpen_handle ?F7,
               lib_open := evOpen_handle ?F7 # lib_open init_state,
               cout := cout init_state @ [Opened (fname ?F7), EvioVersion 3]\<rparr> \<and>
      evRead_calls ?F7 = ?pre3 @ (0, [1, 0x00010000]) # [] \<and>
      list_all (\<lambda>c. fst c = S_SUCCESS) ?pre3 \<and> read_loop 3 ?pre3 ?t3 = Inr (EOF, ?t4)"
    using pre3 by (simp add: sample_file_def S_SUCCESS_def)
  moreover have "(0 :: int) = S_SUCCESS \<and>
      \<not> MAXEVLEN < evbuffer (evRead [1, 0x00010000] ?t4) 0 + 1 \<and> (3 :: int) = 3 \<and>
      drop_bit 16 (evbuffer (evRead [1, 0x00010000] ?t4) 1)
        \<notin> {0xffd1, 0xffd2, 0xffd4, 0xff50, 0xff58, 0xff70}"
    unfolding tag by (simp add: evRead_def MAXEVLEN_def S_SUCCESS_def)
  ultimately have "aborted (main ([] @ ?F7 # [?E]) 1) (gEvNum ?t4)
      (UnrecognizedTag (drop_bit 16 (evbuffer (evRead [1, 0x00010000] ?t4) 1)))"
    using c0 [where f = ?F7 and v = 3 and ?s3.0 = ?t3 and pre = ?pre3 and ret = 0
        and ws = "[1, 0x00010000]" and post = "[]" and r = EOF and ?s4.0 = ?t4]
    by blast
  then have r3: "aborted (main [sample_file 3 [(0, [1, 0xff500000]), (0, [1, 0x00010000])], ?E] 1)
              1 (UnrecognizedTag 1)"
    unfolding g5 tag by simp
  let ?W = "[?A, sample_file 3 [(0, [1, 0x00010000])]]"
  have err: "isl (process_files ?W init_state)"
    and cause: "fst (projl (process_files ?W init_state)) = UnrecognizedTag 1"
    and seq: "last_seq 0 (run_records ?W init_state) = 41"
    by (simp_all add: run_eval)
  from c0 [where fnames = ?W and rest = "[?E]"] err have
    "aborted (main ?W 1) (last_seq 0 (run_records ?W init_state))
       (fst (projl (process_files ?W init_state)))"
    and m: "main (?W @ [?E]) 1 = main ?W 1"
    by blast+
  then have a: "aborted (main ?W 1) 41 (UnrecognizedTag 1)"
    by (simp only: seq cause)
  from h o1 o2 o3 o4 r1 r2 r3 err a m show ?thesis
    by blast
qed

subsection \<open>Runs without a physics record, runs without a record\<close>

lemma non_physics_event_frame:
  assumes "\<not> physics_record v st" and "process_event v st = Inr st'"
  shows "min_evlen st' = min_evlen st \<and> max_evlen st' = max_evlen st"
  using assms
  by (auto simp add: physics_record_def process_event_def Let_def split: sum.splits if_splits)

lemma non_physics_loop_frame:
  assumes "\<forall>r \<in> set (loop_records v calls st). \<not> physics_record (fst r) (snd r)"
    and "read_loop v calls st = Inr (ret, st')"
  shows "min_evlen st' = min_evlen st \<and> max_evlen st' = max_evlen st"
  using assms
proof (induction calls arbitrary: st)
  case Nil
  then show ?case by simp
next
  case (Cons c calls)
  obtain r ws where c: "c = (r, ws)" by (cases c)
  show ?case
  proof (cases "r = S_SUCCESS")
    case False
    with Cons.prems c show ?thesis
      by (auto simp add: evRead_frame)
  next
    case True
    with Cons.prems(2) c obtain st1 where
      ev: "process_event v (evRead ws st) = Inr st1" and
      loop: "read_loop v calls st1 = Inr (ret, st')"
      by (auto split: sum.splits)
    from Cons.prems(1) c True ev have
      np: "\<not> physics_record v (evRead ws st)" and
      rest: "\<forall>r \<in> set (loop_records v calls st1). \<not> physics_record (fst r) (snd r)"
      by auto
    from non_physics_event_frame [OF np ev] Cons.IH [OF rest loop] show ?thesis
      by (simp add: evRead_frame)
  qed
qed

lemma non_physics_file_frame:
  assumes "\<forall>r \<in> set (file_records f st). \<not> physics_record (fst r) (snd r)"
    and "process_file f st = Inr st'"
  shows "min_evlen st' = min_evlen st \<and> max_evlen st' = max_evlen st"
proof -
  from assms(2) obtain v st3 ret st4 where
    op: "open_file f st = Inr (v, st3)" and
    loop: "read_loop v (evRead_calls f) st3 = Inr (ret, st4)" and
    st': "st' = evClose (st4\<lparr>cout := cout st4 @ [EndOfFile]\<rparr>)"
    by (auto simp add: process_file_def split: sum.splits prod.splits if_splits)
  from assms(1) op have "\<forall>r \<in> set (loop_records v (evRead_calls f) st3). \<not> physics_record (fst r) (snd r)"
    by (simp add: file_records_def)
  from non_physics_loop_frame [OF this loop] open_file_ok [OF op] st' show ?thesis
    by (simp add: evClose_def)
qed

lemma non_physics_run_frame:
  assumes "\<forall>r \<in> set (run_records fs st). \<not> physics_record (fst r) (snd r)"
    and "process_files fs st = Inr st'"
  shows "min_evlen st' = min_evlen st \<and> max_evlen st' = max_evlen st"
  using assms
proof (induction fs arbitrary: st)
  case Nil
  then show ?case by simp
next
  case (Cons f fs)
  from Cons.prems(2) obtain st1 where
    one: "process_file f st = Inr st1" and run: "process_files fs st1 = Inr st'"
    by (auto split: sum.splits)
  from Cons.prems(1) one have
    a: "\<forall>r \<in> set (file_records f st). \<not> physics_record (fst r) (snd r)" and
    b: "\<forall>r \<in> set (run_records fs st1). \<not> physics_record (fst r) (snd r)"
    by auto
  from non_physics_file_frame [OF a one] Cons.IH [OF b run] show ?case
    by simp
qed

lemma main_report:
  assumes "printed (main fnames w) = Some r"
  shows "\<exists>st. process_files fnames init_state = Inr st \<and> fnames \<noteq> [] \<and>
              r = print_statistics (length fnames) w st \<and> retcode (main fnames w) = 0 \<and>
              cerr (main fnames w) = None"
  using assms
  by (auto simp add: main_def split: if_splits sum.splits prod.splits)

text \<open>
  Claim C10. When a run ends with a report and none of its records was a
  physics record, the report gives 4294967292 bytes as the minimum physics
  length, which is \<open>UINT_MAX\<close> times 4 modulo \<open>2^32\<close>, and 0 bytes as the
  maximum: the start values of \<open>min_evlen\<close> and \<open>max_evlen\<close>, never touched.
\<close>

theorem C10_no_physics_sentinel:
  assumes "printed (main fnames w) = Some r"
    and "\<forall>x \<in> set (run_records fnames init_state). \<not> physics_record (fst x) (snd x)"
  shows "min_physics_bytes r = 4294967292 \<and>
         unat (min_physics_bytes r) = (4 * (2 ^ 32 - 1)) mod 2 ^ 32 \<and>
         max_physics_bytes r = 0"
proof -
  from main_report [OF assms(1)] obtain st where
    run: "process_files fnames init_state = Inr st" and
    r: "r = print_statistics (length fnames) w st"
    by blast
  from non_physics_run_frame [OF assms(2) run]
  have "min_evlen st = - 1" and "max_evlen st = 0"
    by (simp_all add: init_state_def)
  with r show ?thesis
    by (simp add: print_statistics_def)
qed

theorem C10_no_physics_sentinel_witness:
  "printed (main [sample_file 2 [(0, [1, 0x00100000])], sample_file 3 [(0, [1, 0xffd10000])]] 1) =
     Some (the (printed (main [sample_file 2 [(0, [1, 0x00100000])],
                               sample_file 3 [(0, [1, 0xffd10000])]] 1))) \<and>
   run_records [sample_file 2 [(0, [1, 0x00100000])], sample_file 3 [(0, [1, 0xffd10000])]]
     init_state \<noteq> [] \<and>
   list_all (\<lambda>x. \<not> physics_record (fst x) (snd x))
     (run_records [sample_file 2 [(0, [1, 0x00100000])], sample_file 3 [(0, [1, 0xffd10000])]]
        init_state) \<and>
   events (the (printed (main [sample_file 2 [(0, [1, 0x00100000])],
                               sample_file 3 [(0, [1, 0xffd10000])]] 1))) = 2 \<and>
   physics_events (the (printed (main [sample_file 2 [(0, [1, 0x00100000])],
                                       sample_file 3 [(0, [1, 0xffd10000])]] 1))) = 0 \<and>
   min_physics_bytes (the (printed (main [sample_file 2 [(0, [1, 0x00100000])],
                                          sample_file 3 [(0, [1, 0xffd10000])]] 1))) = 4294967292 \<and>
   max_physics_bytes (the (printed (main [sample_file 2 [(0, [1, 0x00100000])],
                                          sample_file 3 [(0, [1, 0xffd10000])]] 1))) = 0"
proof -
  let ?F = "[sample_file 2 [(0, [1, 0x00100000])], sample_file 3 [(0, [1, 0xffd10000])]]"
  have p: "printed (main ?F 1) = Some (the (printed (main ?F 1)))"
    by (simp add: run_eval)
  have n: "run_records ?F init_state \<noteq> []"
    by (simp add: run_eval)
  have q: "list_all (\<lambda>x. \<not> physics_record (fst x) (snd x)) (run_records ?F init_state)"
    by (simp add: run_eval)
  then have q': "\<forall>x \<in> set (run_records ?F init_state). \<not> physics_record (fst x) (snd x)"
    by (simp only: list_all_iff)
  have e: "events (the (printed (main ?F 1))) = 2"
    and ph: "physics_events (the (printed (main ?F 1))) = 0"
    by (simp_all add: run_eval)
  from C10_no_physics_sentinel [OF p q'] p n q e ph show ?thesis
    by blast
qed







subsection \<open>Totals do not depend on the state a file starts from\<close>

lemma same_growth_refl: "same_growth s s t t"
  by (simp add: same_growth_def)

lemma same_growth_trans:
  "same_growth s s1 t t1 \<Longrightarrow> same_growth s1 s2 t1 t2 \<Longrightarrow> same_growth s s2 t t2"
  unfolding same_growth_def
  by (metis (no_types, opaque_lifting) add_diff_cancel_left' diff_add_cancel diff_diff_eq2)

lemma process_event_shift:
  assumes "evbuffer s 0 = evbuffer t 0" and "evbuffer s 1 = evbuffer t 1"
    and "process_event v s = Inr s'"
  shows "\<exists>t'. process_event v t = Inr t' \<and> same_growth s s' t t'"
  using assms
  by (auto simp add: process_event_def Let_def decode_evtype_def same_growth_def
        physics_update_fields split: if_splits sum.splits option.splits)

lemma evRead_header:
  assumes "2 \<le> length ws"
  shows "evbuffer (evRead ws s) 0 = evbuffer (evRead ws t) 0"
    and "evbuffer (evRead ws s) 1 = evbuffer (evRead ws t) 1"
  using assms by (auto simp add: evRead_def MAXEVLEN_def)

lemma read_loop_shift:
  assumes "list_all (\<lambda>c. fst c \<noteq> S_SUCCESS \<or> 2 \<le> length (snd c)) calls"
    and "read_loop v calls s = Inr (ret, s')"
  shows "\<exists>t'. read_loop v calls t = Inr (ret, t') \<and> same_growth s s' t t'"
  using assms
proof (induction calls arbitrary: s t)
  case Nil
  then show ?case
    by (simp add: same_growth_refl)
next
  case (Cons c calls)
  obtain r ws where c: "c = (r, ws)" by (cases c)
  show ?case
  proof (cases "r = S_SUCCESS")
    case False
    with Cons.prems(2) c have "ret = r" and "s' = evRead ws s"
      by auto
    with False c show ?thesis
      by (simp add: same_growth_def evRead_frame)
  next
    case True
    with Cons.prems(2) c obtain s1 where
      ev: "process_event v (evRead ws s) = Inr s1" and
      loop: "read_loop v calls s1 = Inr (ret, s')"
      by (auto split: sum.splits)
    from Cons.prems(1) c True have len: "2 \<le> length ws" and
      hdr: "list_all (\<lambda>c. fst c \<noteq> S_SUCCESS \<or> 2 \<le> length (snd c)) calls"
      by auto
    from process_event_shift [OF evRead_header [OF len] ev, of t] obtain t1 where
      ev': "process_event v (evRead ws t) = Inr t1" and
      g1: "same_growth (evRead ws s) s1 (evRead ws t) t1"
      by blast
    from Cons.IH [OF hdr loop, of t1] obtain t' where
      loop': "read_loop v calls t1 = Inr (ret, t')" and g2: "same_growth s1 s' t1 t'"
      by blast
    from g1 have "same_growth s s1 t t1"
      by (simp add: same_growth_def evRead_frame)
    from same_growth_trans [OF this g2] ev' loop' c True show ?thesis
      by simp
  qed
qed

lemma open_file_shift:
  assumes "open_file f s = Inr (v, s3)"
  shows "\<exists>t3. open_file f t = Inr (v, t3) \<and> nev t3 = nev t \<and> nphys t3 = nphys t \<and>
              totlen t3 = totlen t"
  using assms
  by (auto simp add: open_file_def Let_def split: if_splits)

lemma process_file_shift:
  assumes "carries_header f" and "process_file f s = Inr s'"
  shows "\<exists>t'. process_file f t = Inr t' \<and> same_growth s s' t t'"
proof -
  from assms(2) obtain v s3 ret s4 where
    op: "open_file f s = Inr (v, s3)" and
    loop: "read_loop v (evRead_calls f) s3 = Inr (ret, s4)" and
    eof: "ret = EOF" and
    s': "s' = evClose (s4\<lparr>cout := cout s4 @ [EndOfFile]\<rparr>)"
    by (auto simp add: process_file_def split: sum.splits prod.splits if_splits)
  from open_file_shift [OF op, of t] obtain t3 where
    op': "open_file f t = Inr (v, t3)" and
    t3: "nev t3 = nev t" "nphys t3 = nphys t" "totlen t3 = totlen t"
    by blast
  from assms(1) have "list_all (\<lambda>c. fst c \<noteq> S_SUCCESS \<or> 2 \<le> length (snd c)) (evRead_calls f)"
    by (simp add: carries_header_def)
  from read_loop_shift [OF this loop, of t3] obtain t4 where
    loop': "read_loop v (evRead_calls f) t3 = Inr (ret, t4)" and g: "same_growth s3 s4 t3 t4"
    by blast
  let ?t' = "evClose (t4\<lparr>cout := cout t4 @ [EndOfFile]\<rparr>)"
  from op' loop' eof have "process_file f t = Inr ?t'"
    by (simp add: process_file_def)
  moreover from g open_file_ok [OF op] t3 s' have "same_growth s s' t ?t'"
    by (simp add: same_growth_def evClose_def)
  ultimately show ?thesis
    by blast
qed

lemma process_file_alone:
  assumes "carries_header f"
  shows "process_file f st = Inr st' \<Longrightarrow> \<not> isl (process_file f init_state)"
    and "\<not> isl (process_file f init_state) \<Longrightarrow>
         \<exists>st'. process_file f st = Inr st' \<and>
               nev st' = nev st + nev (projr (process_file f init_state)) \<and>
               nphys st' = nphys st + nphys (projr (process_file f init_state)) \<and>
               totlen st' = totlen st + totlen (projr (process_file f init_state))"
proof -
  show "\<not> isl (process_file f init_state)" if "process_file f st = Inr st'"
    using process_file_shift [OF assms that, of init_state] by auto
  show "\<exists>st'. process_file f st = Inr st' \<and>
               nev st' = nev st + nev (projr (process_file f init_state)) \<and>
               nphys st' = nphys st + nphys (projr (process_file f init_state)) \<and>
               totlen st' = totlen st + totlen (projr (process_file f init_state))"
    if "\<not> isl (process_file f init_state)"
  proof -
    from that obtain s' where alone: "process_file f init_state = Inr s'"
      by (cases "process_file f init_state") auto
    from process_file_shift [OF assms alone, of st] obtain st' where
      run: "process_file f st = Inr st'" and g: "same_growth init_state s' st st'"
      by blast
    from g have "nev st' = nev st + nev s'" "nphys st' = nphys st + nphys s'"
      "totlen st' = totlen st + totlen s'"
      by (simp_all add: same_growth_def init_state_def algebra_simps)
    with run alone show ?thesis
      by simp
  qed
qed

lemma process_files_sum:
  assumes "list_all carries_header fs"
  shows "process_files fs st = Inr st' \<Longrightarrow> \<forall>f \<in> set fs. \<not> isl (process_file f init_state)"
    and "\<forall>f \<in> set fs. \<not> isl (process_file f init_state) \<Longrightarrow>
         \<exists>st'. process_files fs st = Inr st' \<and>
               nev st' = nev st + (\<Sum>f\<leftarrow>fs. nev (projr (process_file f init_state))) \<and>
               nphys st' = nphys st + (\<Sum>f\<leftarrow>fs. nphys (projr (process_file f init_state))) \<and>
               totlen st' = totlen st + (\<Sum>f\<leftarrow>fs. totlen (projr (process_file f init_state)))"
  using assms
proof (induction fs arbitrary: st)
  case Nil
  { case 1 then show ?case by simp }
  { case 2 then show ?case by simp }
next
  case (Cons f fs)
  { case 1
    from 1(2) have hf: "carries_header f" and hfs: "list_all carries_header fs"
      by simp_all
    from 1(1) obtain st1 where
      one: "process_file f st = Inr st1" and run: "process_files fs st1 = Inr st'"
      by (auto split: sum.splits)
    from process_file_alone(1) [OF hf one] Cons.IH(1) [OF run hfs] show ?case
      by simp }
  { case 2
    from 2(2) have hf: "carries_header f" and hfs: "list_all carries_header fs"
      by simp_all
    from 2(1) have okf: "\<not> isl (process_file f init_state)" and
      okfs: "\<forall>f \<in> set fs. \<not> isl (process_file f init_state)"
      by simp_all
    from process_file_alone(2) [OF hf okf, of st] obtain st1 where
      one: "process_file f st = Inr st1" and
      c1: "nev st1 = nev st + nev (projr (process_file f init_state))"
          "nphys st1 = nphys st + nphys (projr (process_file f init_state))"
          "totlen st1 = totlen st + totlen (projr (process_file f init_state))"
      by blast
    from Cons.IH(2) [OF okfs hfs, of st1] obtain st' where
      run: "process_files fs st1 = Inr st'" and
      c2: "nev st' = nev st1 + (\<Sum>f\<leftarrow>fs. nev (projr (process_file f init_state)))"
          "nphys st' = nphys st1 + (\<Sum>f\<leftarrow>fs. nphys (projr (process_file f init_state)))"
          "totlen st' = totlen st1 + (\<Sum>f\<leftarrow>fs. totlen (projr (process_file f init_state)))"
      by blast
    from one run c1 c2 show ?case
      by (simp add: add.assoc) }
qed

lemma run_totals_sum:
  assumes "list_all carries_header fs"
  shows "run_totals fs =
           (if \<forall>f \<in> set fs. \<not> isl (process_file f init_state)
            then Some ((\<Sum>f\<leftarrow>fs. nev (projr (process_file f init_state))),
                       (\<Sum>f\<leftarrow>fs. nphys (projr (process_file f init_state))),
                       (\<Sum>f\<leftarrow>fs. totlen (projr (process_file f init_state))),
                       4 * (\<Sum>f\<leftarrow>fs. totlen (projr (process_file f init_state))))
            else None)"
proof (cases "\<forall>f \<in> set fs. \<not> isl (process_file f init_state)")
  case True
  from process_files_sum(2) [OF assms True, of init_state] True show ?thesis
    by (auto simp add: run_totals_def init_state_def)
next
  case False
  with process_files_sum(1) [OF assms, of init_state] have "isl (process_files fs init_state)"
    by (cases "process_files fs init_state") auto
  with False show ?thesis
    by (auto simp add: run_totals_def split: sum.splits)
qed

lemma sum_list_permuted:
  fixes g :: "'a \<Rightarrow> 'b :: comm_monoid_add"
  assumes "mset hs = mset fs"
  shows "(\<Sum>f\<leftarrow>hs. g f) = (\<Sum>f\<leftarrow>fs. g f)"
proof -
  from assms have "mset (map g hs) = mset (map g fs)"
    by simp
  then show ?thesis
    by (metis sum_mset_sum_list)
qed

text \<open>
  Claim C8, as the program has it. Take file lists whose runs end without an
  exception and in which every record read carries its two header words.
  Then the run over both lists, one after the other, ends without an
  exception too, and its record count, physics count, cumulative length and
  bytes read are the sums of those of the two separate runs; and every
  reordering of the files gives the same four totals. Counts are
  \<open>unsigned int\<close> and lengths \<open>uint64_t\<close>, and so are the sums.
\<close>

theorem C8_totals_add_up:
  assumes "list_all carries_header (fs @ gs)"
    and "run_totals fs = Some (n1, p1, l1, b1)"
    and "run_totals gs = Some (n2, p2, l2, b2)"
  shows "run_totals (fs @ gs) = Some (n1 + n2, p1 + p2, l1 + l2, b1 + b2) \<and>
         (\<forall>hs. mset hs = mset (fs @ gs) \<longrightarrow> run_totals hs = run_totals (fs @ gs))"
proof -
  from assms(1) have hf: "list_all carries_header fs" and hg: "list_all carries_header gs"
    by simp_all
  from assms(2) run_totals_sum [OF hf] have
    okf: "\<forall>f \<in> set fs. \<not> isl (process_file f init_state)" and
    tf: "n1 = (\<Sum>f\<leftarrow>fs. nev (projr (process_file f init_state)))"
        "p1 = (\<Sum>f\<leftarrow>fs. nphys (projr (process_file f init_state)))"
        "l1 = (\<Sum>f\<leftarrow>fs. totlen (projr (process_file f init_state)))"
        "b1 = 4 * (\<Sum>f\<leftarrow>fs. totlen (projr (process_file f init_state)))"
    by (auto split: if_splits)
  from assms(3) run_totals_sum [OF hg] have
    okg: "\<forall>f \<in> set gs. \<not> isl (process_file f init_state)" and
    tg: "n2 = (\<Sum>f\<leftarrow>gs. nev (projr (process_file f init_state)))"
        "p2 = (\<Sum>f\<leftarrow>gs. nphys (projr (process_file f init_state)))"
        "l2 = (\<Sum>f\<leftarrow>gs. totlen (projr (process_file f init_state)))"
        "b2 = 4 * (\<Sum>f\<leftarrow>gs. totlen (projr (process_file f init_state)))"
    by (auto split: if_splits)
  from okf okg have ok: "\<forall>f \<in> set (fs @ gs). \<not> isl (process_file f init_state)"
    by auto
  have both: "run_totals (fs @ gs) = Some (n1 + n2, p1 + p2, l1 + l2, b1 + b2)"
    using run_totals_sum [OF assms(1)] ok tf tg
    by (simp add: distrib_left)
  have perm: "run_totals hs = run_totals (fs @ gs)" if m: "mset hs = mset (fs @ gs)" for hs
  proof -
    from m have sets: "set hs = set (fs @ gs)"
      by (rule mset_eq_setD)
    with assms(1) have hh: "list_all carries_header hs"
      by (simp only: list_all_iff)
    from sets ok have okh: "\<forall>f \<in> set hs. \<not> isl (process_file f init_state)"
      by simp
    show ?thesis
      unfolding run_totals_sum [OF hh] run_totals_sum [OF assms(1)] if_P [OF okh] if_P [OF ok]
      by (simp only: sum_list_permuted [OF m])
  qed
  from both perm show ?thesis
    by blast
qed

theorem C8_totals_add_up_witness:
  "list_all carries_header
     ([sample_file 2 [(0, [1, 0x00100000]), (0, [4, 0, 0, 0, 7])]] @
      [sample_file 3 [(0, [1, 0xff500000])]]) \<and>
   run_totals [sample_file 2 [(0, [1, 0x00100000]), (0, [4, 0, 0, 0, 7])]] = Some (2, 1, 7, 28) \<and>
   run_totals [sample_file 3 [(0, [1, 0xff500000])]] = Some (1, 1, 2, 8) \<and>
   run_totals ([sample_file 2 [(0, [1, 0x00100000]), (0, [4, 0, 0, 0, 7])]] @
               [sample_file 3 [(0, [1, 0xff500000])]]) = Some (3, 2, 9, 36) \<and>
   mset [sample_file 3 [(0, [1, 0xff500000])],
         sample_file 2 [(0, [1, 0x00100000]), (0, [4, 0, 0, 0, 7])]] =
     mset ([sample_file 2 [(0, [1, 0x00100000]), (0, [4, 0, 0, 0, 7])]] @
           [sample_file 3 [(0, [1, 0xff500000])]]) \<and>
   run_totals [sample_file 3 [(0, [1, 0xff500000])],
               sample_file 2 [(0, [1, 0x00100000]), (0, [4, 0, 0, 0, 7])]] = Some (3, 2, 9, 36)"
proof -
  let ?A = "sample_file 2 [(0, [1, 0x00100000]), (0, [4, 0, 0, 0, 7])]"
  let ?B = "sample_file 3 [(0, [1, 0xff500000])]"
  have h: "list_all carries_header ([?A] @ [?B])"
    by (simp add: carries_header_def sample_file_def)
  have a: "run_totals [?A] = Some (2, 1, 7, 28)"
    by (simp add: run_eval)
  have b: "run_totals [?B] = Some (1, 1, 2, 8)"
    by (simp add: run_eval)
  have m: "mset [?B, ?A] = mset ([?A] @ [?B])"
    by (simp add: add_mset_commute)
  from C8_totals_add_up [OF h a b] have
    ab: "run_totals ([?A] @ [?B]) = Some (2 + 1, 1 + 1, 7 + 2, 28 + 8)" and
    p: "\<forall>hs. mset hs = mset ([?A] @ [?B]) \<longrightarrow> run_totals hs = run_totals ([?A] @ [?B])"
    by blast+
  from ab have ab': "run_totals ([?A] @ [?B]) = Some (3, 2, 9, 36)"
    by simp
  from p m have "run_totals [?B, ?A] = run_totals ([?A] @ [?B])"
    by blast
  with ab' have ba: "run_totals [?B, ?A] = Some (3, 2, 9, 36)"
    by simp
  from h a b m ab' ba show ?thesis
    by blast
qed

text \<open>
  The claim C8 as the specification states it, for all file lists, fails. A
  record of one word leaves word 1 of the buffer as the record before it left
  it, or at its first value 0. Alone, the file with such a record has one
  physics record; after a file that ends on a Sync record it has none; so
  the physics count of the run over both is not the sum, and it changes with
  the order of the two files.
\<close>

theorem C8_short_record_counterexample:
  "run_totals [sample_file 2 [(0, [1, 0x00100000])]] = Some (1, 0, 2, 8) \<and>
   run_totals [sample_file 2 [(0, [0])]] = Some (1, 1, 1, 4) \<and>
   run_totals [sample_file 2 [(0, [1, 0x00100000])], sample_file 2 [(0, [0])]] =
     Some (2, 0, 3, 12) \<and>
   run_totals [sample_file 2 [(0, [1, 0x00100000])], sample_file 2 [(0, [0])]] \<noteq>
     Some (1 + 1, 0 + 1, 2 + 1, 8 + 4) \<and>
   run_totals [sample_file 2 [(0, [0])], sample_file 2 [(0, [1, 0x00100000])]] =
     Some (2, 1, 3, 12) \<and>
   run_totals [sample_file 2 [(0, [0])], sample_file 2 [(0, [1, 0x00100000])]] \<noteq>
     run_totals [sample_file 2 [(0, [1, 0x00100000])], sample_file 2 [(0, [0])]]"
  by (simp add: run_eval)

end
